theory Spec2Isabelle
  imports Complex_Main "HOL-Library.Word"
begin

unbundle bit_operations_syntax

section \<open>Data model of nc\_business\_doc\_fetcher.py\<close>

text \<open>
  Python strings are modelled as \<open>string\<close>; a \<open>char\<close> stands for one code point
  below 256. Exceptions are values: a class and the message that \<open>str(err)\<close> returns.
  Every raise of the source is an \<open>Inl\<close> branch of the model. The subclasses of
  \<open>requests.RequestException\<close> (HTTPError, ConnectionError, Timeout, ...) are one class,
  since the source only tests \<open>except requests.RequestException\<close>.
\<close>

datatype exn_class =
  RequestException | SearchOperationError | DocumentRetrievalError
  | ValueError | OSError | OtherException

datatype exn = Exn (exn_type: exn_class) (str_exn: string)

record BusinessRecord =
  entity_name :: string
  sos_identifier :: string
  status_text :: string
  date_registered :: string
  detail_link :: string
  pdf_documents :: "string list"

record ScraperConfiguration =
  target_base_url :: string
  search_endpoint :: string
  storage_directory :: string
  request_delay_seconds :: real
  connection_timeout :: int
  max_retry_attempts :: int
  http_user_agent :: string

definition FILENAME_MAX_LENGTH :: nat where
  "FILENAME_MAX_LENGTH = 50"

record response =
  resp_status_code :: int
  resp_reason :: string
  resp_url :: string
  resp_text :: string
  resp_content :: string

section \<open>The outside world\<close>

text \<open>
  What the program does to the outside is a log of events kept in the \<open>world\<close>; what the
  outside answers is an \<open>environment\<close> of oracles. \<open>http_get E n u\<close> is what
  \<open>session.get(u, timeout=...)\<close> does when \<open>n\<close> GET requests have been sent before it:
  it raises or returns a response. \<open>now E n\<close> is what \<open>datetime.now()\<close> reads and
  \<open>write_file E n p\<close> says whether \<open>open(p, "wb")\<close> and the write raise, both after
  \<open>n\<close> requests. \<open>parse_html E\<close> is \<open>BeautifulSoup(html, "lxml")\<close> and
  \<open>ip_address_ok E\<close> is the verdict of the \<open>ipaddress\<close> module on a bracketed host that
  does not start with \<open>v\<close>: both are libraries that are not modelled further. Logging has
  no effect on any result and is left out.
\<close>

datatype event = Sleep real | Get string int | Write string string

record world =
  requests_made :: nat
  events :: "event list"

datatype node = Tag string "(string \<times> string) list" "node list" | NavigableString string

record datetime =
  dt_year :: nat
  dt_month :: nat
  dt_day :: nat
  dt_hour :: nat
  dt_minute :: nat
  dt_second :: nat

record environment =
  http_get :: "nat \<Rightarrow> string \<Rightarrow> exn + response"
  parse_html :: "string \<Rightarrow> node"
  now :: "nat \<Rightarrow> datetime"
  write_file :: "nat \<Rightarrow> string \<Rightarrow> exn option"
  ip_address_ok :: "string \<Rightarrow> bool"

section \<open>Decimal rendering\<close>

definition digit_char :: "nat \<Rightarrow> char" where
  "digit_char d = char_of (48 + d)"

fun str_nat :: "nat \<Rightarrow> string" where
  "str_nat n = (if n < 10 then [digit_char n] else str_nat (n div 10) @ [digit_char (n mod 10)])"

declare str_nat.simps [simp del]

definition str_int :: "int \<Rightarrow> string" where
  "str_int i = (if i < 0 then CHR ''-'' # str_nat (nat (- i)) else str_nat (nat i))"

section \<open>Transport: \_perform\_request\<close>

text \<open>\<open>time.sleep\<close> raises ValueError on a negative length; otherwise the sleep is logged.\<close>

definition sleep :: "real \<Rightarrow> world \<Rightarrow> (exn + unit) \<times> world" where
  "sleep secs w =
     (if secs < 0 then (Inl (Exn ValueError ''sleep length must be non-negative''), w)
      else (Inr (), w\<lparr>events := events w @ [Sleep secs]\<rparr>))"

text \<open>\<open>Response.raise_for_status\<close> of requests: HTTPError for a status in 400..599.\<close>

definition raise_for_status :: "response \<Rightarrow> exn + response" where
  "raise_for_status r =
     (if 400 \<le> resp_status_code r \<and> resp_status_code r < 500 then
        Inl (Exn RequestException (str_int (resp_status_code r) @ '' Client Error: ''
               @ resp_reason r @ '' for url: '' @ resp_url r))
      else if 500 \<le> resp_status_code r \<and> resp_status_code r < 600 then
        Inl (Exn RequestException (str_int (resp_status_code r) @ '' Server Error: ''
               @ resp_reason r @ '' for url: '' @ resp_url r))
      else Inr r)"

text \<open>
  One attempt: the body of the \<open>try\<close> after the sleep, that is \<open>session.get\<close> followed by
  \<open>raise_for_status\<close>, when \<open>n\<close> requests have been sent before.
\<close>

definition attempt :: "environment \<Rightarrow> nat \<Rightarrow> string \<Rightarrow> exn + response" where
  "attempt E n target_url =
     (case http_get E n target_url of Inl e \<Rightarrow> Inl e | Inr r \<Rightarrow> raise_for_status r)"

definition sent :: "ScraperConfiguration \<Rightarrow> string \<Rightarrow> world \<Rightarrow> world" where
  "sent cfg target_url w =
     w\<lparr>requests_made := Suc (requests_made w),
       events := events w @ [Get target_url (connection_timeout cfg)]\<rparr>"

function perform_request ::
  "environment \<Rightarrow> ScraperConfiguration \<Rightarrow> string \<Rightarrow> int \<Rightarrow> world \<Rightarrow> (exn + response) \<times> world"
where
  "perform_request E cfg target_url retry_count w =
     (case sleep (request_delay_seconds cfg) w of
        (Inl e, w1) \<Rightarrow> (Inl e, w1)
      | (Inr _, w1) \<Rightarrow>
          (case attempt E (requests_made w1) target_url of
             Inr r \<Rightarrow> (Inr r, sent cfg target_url w1)
           | Inl req_error \<Rightarrow>
               if exn_type req_error = RequestException then
                 if retry_count < max_retry_attempts cfg then
                   (case sleep (of_int ((retry_count + 1) * 2)) (sent cfg target_url w1) of
                      (Inl e, w3) \<Rightarrow> (Inl e, w3)
                    | (Inr _, w3) \<Rightarrow> perform_request E cfg target_url (retry_count + 1) w3)
                 else (Inl (Exn SearchOperationError
                              (''Request failed after retries: '' @ str_exn req_error)),
                       sent cfg target_url w1)
               else (Inl req_error, sent cfg target_url w1)))"
  by pat_completeness auto
termination
  by (relation "measure (\<lambda>(E, cfg, target_url, retry_count, w).
                   nat (max_retry_attempts cfg - retry_count))") auto

declare perform_request.simps [simp del]

section \<open>Strings as Python has them\<close>

text \<open>\<open>str.lower\<close> on code points below 256.\<close>

definition lower_char :: "char \<Rightarrow> char" where
  "lower_char c =
     (let n = (of_char c :: nat)
      in if (65 \<le> n \<and> n \<le> 90) \<or> (192 \<le> n \<and> n \<le> 214) \<or> (216 \<le> n \<and> n \<le> 222)
         then char_of (n + 32) else c)"

definition lower :: "string \<Rightarrow> string" where
  "lower s = map lower_char s"

definition startswith :: "string \<Rightarrow> string \<Rightarrow> bool" where
  "startswith s p = (take (length p) s = p)"

definition endswith :: "string \<Rightarrow> string \<Rightarrow> bool" where
  "endswith s suffix = (length suffix \<le> length s \<and> drop (length s - length suffix) s = suffix)"

text \<open>\<open>re.search\<close> of a literal pattern under \<open>re.I\<close>: a case-insensitive substring.\<close>

fun contains_ci :: "string \<Rightarrow> string \<Rightarrow> bool" where
  "contains_ci pat [] = (pat = [])"
| "contains_ci pat (c # cs) = (startswith (lower (c # cs)) pat \<or> contains_ci pat cs)"

text \<open>The classes \<open>\w\<close> and \<open>\s\<close> of \<open>re\<close> on code points below 256.\<close>

definition is_word_char :: "char \<Rightarrow> bool" where
  "is_word_char c =
     (let n = (of_char c :: nat)
      in (48 \<le> n \<and> n \<le> 57) \<or> (65 \<le> n \<and> n \<le> 90) \<or> n = 95 \<or> (97 \<le> n \<and> n \<le> 122)
         \<or> n = 170 \<or> n = 178 \<or> n = 179 \<or> n = 181 \<or> n = 185 \<or> n = 186
         \<or> (188 \<le> n \<and> n \<le> 190) \<or> (192 \<le> n \<and> n \<le> 214) \<or> (216 \<le> n \<and> n \<le> 246)
         \<or> 248 \<le> n)"

definition is_space_char :: "char \<Rightarrow> bool" where
  "is_space_char c =
     (let n = (of_char c :: nat)
      in (9 \<le> n \<and> n \<le> 13) \<or> (28 \<le> n \<and> n \<le> 32) \<or> n = 133 \<or> n = 160)"

definition strip :: "string \<Rightarrow> string" where
  "strip s = rev (dropWhile is_space_char (rev (dropWhile is_space_char s)))"

fun split_on :: "char \<Rightarrow> string \<Rightarrow> string list" where
  "split_on c [] = [[]]"
| "split_on c (x # xs) =
     (if x = c then [] # split_on c xs
      else (case split_on c xs of [] \<Rightarrow> [[x]] | y # ys \<Rightarrow> (x # y) # ys))"

fun join :: "string \<Rightarrow> string list \<Rightarrow> string" where
  "join sep [] = []"
| "join sep [x] = x"
| "join sep (x # y # ys) = x @ sep @ join sep (y # ys)"

text \<open>\<open>s.partition(c)\<close>: the text before the first \<open>c\<close> and the text after it.\<close>

definition before_first :: "char \<Rightarrow> string \<Rightarrow> string" where
  "before_first c s = takeWhile (\<lambda>x. x \<noteq> c) s"

definition after_first :: "char \<Rightarrow> string \<Rightarrow> string" where
  "after_first c s = drop 1 (dropWhile (\<lambda>x. x \<noteq> c) s)"

text \<open>\<open>str.encode()\<close>: UTF-8, for code points below 256.\<close>

definition encode :: "string \<Rightarrow> nat list" where
  "encode s =
     concat (map (\<lambda>c. let n = (of_char c :: nat)
                      in if n < 128 then [n] else [192 + n div 64, 128 + n mod 64]) s)"

section \<open>urllib.parse\<close>

text \<open>
  \<open>urljoin\<close>, \<open>urlparse\<close>, \<open>urlsplit\<close>, \<open>urlunparse\<close> and \<open>urlencode\<close> of
  CPython 3.11, function by function. \<open>urlsplit\<close> raises ValueError on a host with an
  unbalanced or invalid bracket; its NFKC check cannot fail on code points below 256.
\<close>

definition uses_relative :: "string list" where
  "uses_relative = ['''', ''ftp'', ''http'', ''gopher'', ''nntp'', ''imap'', ''wais'', ''file'',
     ''https'', ''shttp'', ''mms'', ''prospero'', ''rtsp'', ''rtsps'', ''rtspu'', ''sftp'',
     ''svn'', ''svn+ssh'', ''ws'', ''wss'']"

definition uses_netloc :: "string list" where
  "uses_netloc = ['''', ''ftp'', ''http'', ''gopher'', ''nntp'', ''telnet'', ''imap'', ''wais'',
     ''file'', ''mms'', ''https'', ''shttp'', ''snews'', ''prospero'', ''rtsp'', ''rtsps'',
     ''rtspu'', ''rsync'', ''svn'', ''svn+ssh'', ''sftp'', ''nfs'', ''git'', ''git+ssh'',
     ''ws'', ''wss'']"

definition uses_params :: "string list" where
  "uses_params = ['''', ''ftp'', ''hdl'', ''prospero'', ''http'', ''imap'', ''https'', ''shttp'',
     ''rtsp'', ''rtsps'', ''rtspu'', ''sip'', ''sips'', ''mms'', ''sftp'', ''tel'']"

definition is_ascii_alpha :: "char \<Rightarrow> bool" where
  "is_ascii_alpha c =
     (let n = (of_char c :: nat) in (65 \<le> n \<and> n \<le> 90) \<or> (97 \<le> n \<and> n \<le> 122))"

definition is_ascii_digit :: "char \<Rightarrow> bool" where
  "is_ascii_digit c = (let n = (of_char c :: nat) in 48 \<le> n \<and> n \<le> 57)"

definition is_scheme_char :: "char \<Rightarrow> bool" where
  "is_scheme_char c =
     (is_ascii_alpha c \<or> is_ascii_digit c \<or> c = CHR ''+'' \<or> c = CHR ''-'' \<or> c = CHR ''.'')"

definition is_hex_char :: "char \<Rightarrow> bool" where
  "is_hex_char c =
     (let n = (of_char c :: nat)
      in (48 \<le> n \<and> n \<le> 57) \<or> (65 \<le> n \<and> n \<le> 70) \<or> (97 \<le> n \<and> n \<le> 102))"

definition c0_control_or_space :: "char \<Rightarrow> bool" where
  "c0_control_or_space c = ((of_char c :: nat) \<le> 32)"

definition unsafe_url_byte :: "char \<Rightarrow> bool" where
  "unsafe_url_byte c = ((of_char c :: nat) = 9 \<or> (of_char c :: nat) = 13 \<or> (of_char c :: nat) = 10)"

definition netloc_delim :: "char \<Rightarrow> bool" where
  "netloc_delim c = (c = CHR ''/'' \<or> c = CHR ''?'' \<or> c = CHR ''#'')"

definition check_bracketed_host :: "environment \<Rightarrow> string \<Rightarrow> exn option" where
  "check_bracketed_host E hostname =
     (if startswith hostname ''v'' then
        (let rest = dropWhile is_hex_char (drop 1 hostname)
         in if takeWhile is_hex_char (drop 1 hostname) \<noteq> [] \<and> startswith rest ''.''
               \<and> 2 \<le> length rest
            then None else Some (Exn ValueError ''IPvFuture address is invalid''))
      else if ip_address_ok E hostname then None
      else Some (Exn ValueError ''invalid bracketed host''))"

definition urlsplit ::
  "environment \<Rightarrow> string \<Rightarrow> string \<Rightarrow> exn + (string \<times> string \<times> string \<times> string \<times> string)"
where
  "urlsplit E url0 scheme0 =
     (let url1 = filter (\<lambda>c. \<not> unsafe_url_byte c) (dropWhile c0_control_or_space url0);
          scheme1 = filter (\<lambda>c. \<not> unsafe_url_byte c)
                      (rev (dropWhile c0_control_or_space
                         (rev (dropWhile c0_control_or_space scheme0))));
          has_scheme = (CHR '':'' \<in> set url1 \<and> before_first CHR '':'' url1 \<noteq> []
                        \<and> is_ascii_alpha (hd url1)
                        \<and> list_all is_scheme_char (before_first CHR '':'' url1));
          scheme = (if has_scheme then lower (before_first CHR '':'' url1) else scheme1);
          url2 = (if has_scheme then after_first CHR '':'' url1 else url1);
          has_netloc = (take 2 url2 = ''//'');
          netloc = (if has_netloc then takeWhile (\<lambda>c. \<not> netloc_delim c) (drop 2 url2) else []);
          url3 = (if has_netloc then dropWhile (\<lambda>c. \<not> netloc_delim c) (drop 2 url2) else url2);
          fragment = (if CHR ''#'' \<in> set url3 then after_first CHR ''#'' url3 else []);
          url4 = before_first CHR ''#'' url3;
          query = (if CHR ''?'' \<in> set url4 then after_first CHR ''?'' url4 else []);
          url5 = before_first CHR ''?'' url4
      in if has_netloc \<and> ((CHR ''['' \<in> set netloc \<and> CHR '']'' \<notin> set netloc)
                           \<or> (CHR '']'' \<in> set netloc \<and> CHR ''['' \<notin> set netloc))
         then Inl (Exn ValueError ''Invalid IPv6 URL'')
         else if has_netloc \<and> CHR ''['' \<in> set netloc \<and> CHR '']'' \<in> set netloc then
           (case check_bracketed_host E
                   (before_first CHR '']'' (after_first CHR ''['' netloc)) of
              Some e \<Rightarrow> Inl e
            | None \<Rightarrow> Inr (scheme, netloc, url5, query, fragment))
         else Inr (scheme, netloc, url5, query, fragment))"

definition splitparams :: "string \<Rightarrow> string \<times> string" where
  "splitparams url =
     (if CHR ''/'' \<in> set url then
        (let last_seg = rev (takeWhile (\<lambda>c. c \<noteq> CHR ''/'') (rev url));
             front = rev (dropWhile (\<lambda>c. c \<noteq> CHR ''/'') (rev url))
         in if CHR '';'' \<in> set last_seg
            then (front @ before_first CHR '';'' last_seg, after_first CHR '';'' last_seg)
            else (url, []))
      else (before_first CHR '';'' url, after_first CHR '';'' url))"

definition urlparse ::
  "environment \<Rightarrow> string \<Rightarrow> string
     \<Rightarrow> exn + (string \<times> string \<times> string \<times> string \<times> string \<times> string)"
where
  "urlparse E url scheme0 =
     (case urlsplit E url scheme0 of
        Inl e \<Rightarrow> Inl e
      | Inr (scheme, netloc, path, query, fragment) \<Rightarrow>
          if scheme \<in> set uses_params \<and> CHR '';'' \<in> set path
          then (case splitparams path of
                  (path', params) \<Rightarrow> Inr (scheme, netloc, path', params, query, fragment))
          else Inr (scheme, netloc, path, [], query, fragment))"

definition urlunsplit :: "string \<times> string \<times> string \<times> string \<times> string \<Rightarrow> string" where
  "urlunsplit components =
     (case components of (scheme, netloc, url0, query, fragment) \<Rightarrow>
        let url1 = (if netloc \<noteq> [] \<or> (scheme \<noteq> [] \<and> scheme \<in> set uses_netloc)
                       \<or> take 2 url0 = ''//''
                    then ''//'' @ netloc
                           @ (if url0 \<noteq> [] \<and> take 1 url0 \<noteq> ''/'' then ''/'' @ url0 else url0)
                    else url0);
            url2 = (if scheme \<noteq> [] then scheme @ '':'' @ url1 else url1);
            url3 = (if query \<noteq> [] then url2 @ ''?'' @ query else url2)
        in if fragment \<noteq> [] then url3 @ ''#'' @ fragment else url3)"

definition urlunparse ::
  "string \<times> string \<times> string \<times> string \<times> string \<times> string \<Rightarrow> string" where
  "urlunparse components =
     (case components of (scheme, netloc, url0, params, query, fragment) \<Rightarrow>
        urlunsplit (scheme, netloc,
                    (if params \<noteq> [] then url0 @ '';'' @ params else url0), query, fragment))"

text \<open>\<open>segments[1:-1] = filter(None, segments[1:-1])\<close>\<close>

definition drop_empty_inner :: "string list \<Rightarrow> string list" where
  "drop_empty_inner segments =
     (case segments of
        [] \<Rightarrow> []
      | [x] \<Rightarrow> [x]
      | x # rest \<Rightarrow> x # filter (\<lambda>seg. seg \<noteq> []) (butlast rest) @ [last rest])"

fun resolve_segments :: "string list \<Rightarrow> string list \<Rightarrow> string list" where
  "resolve_segments [] resolved_path = resolved_path"
| "resolve_segments (seg # segs) resolved_path =
     (if seg = ''..'' then resolve_segments segs (butlast resolved_path)
      else if seg = ''.'' then resolve_segments segs resolved_path
      else resolve_segments segs (resolved_path @ [seg]))"

definition urljoin :: "environment \<Rightarrow> string \<Rightarrow> string \<Rightarrow> exn + string" where
  "urljoin E base url0 =
     (if base = [] then Inr url0
      else if url0 = [] then Inr base
      else
        (case urlparse E base [] of
           Inl e \<Rightarrow> Inl e
         | Inr (bscheme, bnetloc, bpath, bparams, bquery, bfragment) \<Rightarrow>
        (case urlparse E url0 bscheme of
           Inl e \<Rightarrow> Inl e
         | Inr (scheme, netloc0, path, params, query, fragment) \<Rightarrow>
             if scheme \<noteq> bscheme \<or> scheme \<notin> set uses_relative then Inr url0
             else if scheme \<in> set uses_netloc \<and> netloc0 \<noteq> [] then
               Inr (urlunparse (scheme, netloc0, path, params, query, fragment))
             else
               (let netloc = (if scheme \<in> set uses_netloc then bnetloc else netloc0)
                in if path = [] \<and> params = [] then
                     Inr (urlunparse (scheme, netloc, bpath, bparams,
                                      (if query = [] then bquery else query), fragment))
                   else
                     (let base_parts0 = split_on CHR ''/'' bpath;
                          base_parts = (if last base_parts0 \<noteq> [] then butlast base_parts0
                                        else base_parts0);
                          segments = (if take 1 path = ''/'' then split_on CHR ''/'' path
                                      else drop_empty_inner (base_parts @ split_on CHR ''/'' path));
                          resolved0 = resolve_segments segments [];
                          resolved_path = (if last segments = ''.'' \<or> last segments = ''..''
                                           then resolved0 @ [[]] else resolved0);
                          joined = join ''/'' resolved_path
                      in Inr (urlunparse (scheme, netloc,
                                          (if joined = [] then ''/'' else joined),
                                          params, query, fragment)))))))"

text \<open>\<open>urlencode({"Words": query_term})\<close>, that is \<open>"Words=" + quote_plus(query_term)\<close>.\<close>

definition always_safe :: "nat \<Rightarrow> bool" where
  "always_safe b =
     ((48 \<le> b \<and> b \<le> 57) \<or> (65 \<le> b \<and> b \<le> 90) \<or> (97 \<le> b \<and> b \<le> 122)
      \<or> b = 95 \<or> b = 46 \<or> b = 45 \<or> b = 126)"

definition hex_upper :: "nat \<Rightarrow> char" where
  "hex_upper d = (''0123456789ABCDEF'') ! d"

definition quote_plus :: "string \<Rightarrow> string" where
  "quote_plus s =
     concat (map (\<lambda>b. if always_safe b then [char_of b]
                       else if b = 32 then ''+''
                       else [CHR ''%'', hex_upper (b div 16), hex_upper (b mod 16)]) (encode s))"

definition urlencode_words :: "string \<Rightarrow> string" where
  "urlencode_words query_term = ''Words='' @ quote_plus query_term"

section \<open>hashlib.md5\<close>

text \<open>
  MD5 as RFC 1321 defines it, on 32-bit values kept as \<open>nat\<close> with the wrap-around
  written out. Each entry of a round table is (index of the message word, rotation,
  additive constant).
\<close>

type_synonym md5_state = "nat \<times> nat \<times> nat \<times> nat"

definition add32 :: "nat \<Rightarrow> nat \<Rightarrow> nat" where
  "add32 x y = (x + y) mod 4294967296"

definition not32 :: "nat \<Rightarrow> nat" where
  "not32 x = x XOR 4294967295"

definition rotl32 :: "nat \<Rightarrow> nat \<Rightarrow> nat" where
  "rotl32 x n = (x * 2 ^ n) mod 4294967296 + x div 2 ^ (32 - n)"

definition md5_F :: "nat \<Rightarrow> nat \<Rightarrow> nat \<Rightarrow> nat" where
  "md5_F x y z = (x AND y) OR (not32 x AND z)"

definition md5_G :: "nat \<Rightarrow> nat \<Rightarrow> nat \<Rightarrow> nat" where
  "md5_G x y z = (x AND z) OR (y AND not32 z)"

definition md5_H :: "nat \<Rightarrow> nat \<Rightarrow> nat \<Rightarrow> nat" where
  "md5_H x y z = x XOR y XOR z"

definition md5_I :: "nat \<Rightarrow> nat \<Rightarrow> nat \<Rightarrow> nat" where
  "md5_I x y z = y XOR (x OR not32 z)"

definition md5_round1 :: "(nat \<times> nat \<times> nat) list" where
  "md5_round1 =
    [(0, 7, 0xd76aa478), (1, 12, 0xe8c7b756), (2, 17, 0x242070db), (3, 22, 0xc1bdceee),
     (4, 7, 0xf57c0faf), (5, 12, 0x4787c62a), (6, 17, 0xa8304613), (7, 22, 0xfd469501),
     (8, 7, 0x698098d8), (9, 12, 0x8b44f7af), (10, 17, 0xffff5bb1), (11, 22, 0x895cd7be),
     (12, 7, 0x6b901122), (13, 12, 0xfd987193), (14, 17, 0xa679438e), (15, 22, 0x49b40821)]"

definition md5_round2 :: "(nat \<times> nat \<times> nat) list" where
  "md5_round2 =
    [(1, 5, 0xf61e2562), (6, 9, 0xc040b340), (11, 14, 0x265e5a51), (0, 20, 0xe9b6c7aa),
     (5, 5, 0xd62f105d), (10, 9, 0x02441453), (15, 14, 0xd8a1e681), (4, 20, 0xe7d3fbc8),
     (9, 5, 0x21e1cde6), (14, 9, 0xc33707d6), (3, 14, 0xf4d50d87), (8, 20, 0x455a14ed),
     (13, 5, 0xa9e3e905), (2, 9, 0xfcefa3f8), (7, 14, 0x676f02d9), (12, 20, 0x8d2a4c8a)]"

definition md5_round3 :: "(nat \<times> nat \<times> nat) list" where
  "md5_round3 =
    [(5, 4, 0xfffa3942), (8, 11, 0x8771f681), (11, 16, 0x6d9d6122), (14, 23, 0xfde5380c),
     (1, 4, 0xa4beea44), (4, 11, 0x4bdecfa9), (7, 16, 0xf6bb4b60), (10, 23, 0xbebfbc70),
     (13, 4, 0x289b7ec6), (0, 11, 0xeaa127fa), (3, 16, 0xd4ef3085), (6, 23, 0x04881d05),
     (9, 4, 0xd9d4d039), (12, 11, 0xe6db99e5), (15, 16, 0x1fa27cf8), (2, 23, 0xc4ac5665)]"

definition md5_round4 :: "(nat \<times> nat \<times> nat) list" where
  "md5_round4 =
    [(0, 6, 0xf4292244), (7, 10, 0x432aff97), (14, 15, 0xab9423a7), (5, 21, 0xfc93a039),
     (12, 6, 0x655b59c3), (3, 10, 0x8f0ccc92), (10, 15, 0xffeff47d), (1, 21, 0x85845dd1),
     (8, 6, 0x6fa87e4f), (15, 10, 0xfe2ce6e0), (6, 15, 0xa3014314), (13, 21, 0x4e0811a1),
     (4, 6, 0xf7537e82), (11, 10, 0xbd3af235), (2, 15, 0x2ad7d2bb), (9, 21, 0xeb86d391)]"

fun md5_steps ::
  "(nat \<Rightarrow> nat \<Rightarrow> nat \<Rightarrow> nat) \<Rightarrow> nat list \<Rightarrow> (nat \<times> nat \<times> nat) list
     \<Rightarrow> md5_state \<Rightarrow> md5_state"
where
  "md5_steps f M [] st = st"
| "md5_steps f M ((g, s, k) # ops) (A, B, C, D) =
     md5_steps f M ops
       (D, add32 B (rotl32 (add32 (add32 (add32 A (f B C D)) (M ! g)) k) s), B, C)"

definition md5_block :: "md5_state \<Rightarrow> nat list \<Rightarrow> md5_state" where
  "md5_block st M =
     (case st of (a0, b0, c0, d0) \<Rightarrow>
        case md5_steps md5_I M md5_round4
               (md5_steps md5_H M md5_round3
                 (md5_steps md5_G M md5_round2
                   (md5_steps md5_F M md5_round1 st))) of
          (A, B, C, D) \<Rightarrow> (add32 a0 A, add32 b0 B, add32 c0 C, add32 d0 D))"

definition md5_pad :: "nat list \<Rightarrow> nat list" where
  "md5_pad bs =
     (let n = length bs
      in bs @ [128] @ replicate ((119 - n mod 64) mod 64) 0
            @ map (\<lambda>k. (8 * n) div 256 ^ k mod 256) [0, 1, 2, 3, 4, 5, 6, 7])"

fun le_words :: "nat list \<Rightarrow> nat list" where
  "le_words (b0 # b1 # b2 # b3 # bs) =
     (b0 + 256 * b1 + 65536 * b2 + 16777216 * b3) # le_words bs"
| "le_words _ = []"

function chunks16 :: "nat list \<Rightarrow> nat list list" where
  "chunks16 ws = (if ws = [] then [] else take 16 ws # chunks16 (drop 16 ws))"
  by pat_completeness auto
termination
  by (relation "measure length") auto

declare chunks16.simps [simp del]

definition hex_digit :: "nat \<Rightarrow> char" where
  "hex_digit d = (''0123456789abcdef'') ! d"

definition hex_byte :: "nat \<Rightarrow> string" where
  "hex_byte b = [hex_digit (b div 16), hex_digit (b mod 16)]"

definition word_hex_le :: "nat \<Rightarrow> string" where
  "word_hex_le w = concat (map (\<lambda>k. hex_byte (w div 256 ^ k mod 256)) [0, 1, 2, 3])"

definition md5_hexdigest :: "nat list \<Rightarrow> string" where
  "md5_hexdigest bs =
     (case foldl md5_block (0x67452301, 0xefcdab89, 0x98badcfe, 0x10325476)
             (chunks16 (le_words (md5_pad bs))) of
        (a, b, c, d) \<Rightarrow> word_hex_le a @ word_hex_le b @ word_hex_le c @ word_hex_le d)"

section \<open>datetime.strftime\<close>

definition zfill :: "nat \<Rightarrow> string \<Rightarrow> string" where
  "zfill width s = replicate (width - length s) CHR ''0'' @ s"

text \<open>
  \<open>strftime("%Y%m%d_%H%M%S")\<close>, every field zero-padded (for \<open>%Y\<close> the C library
  pads from the year 1000 on, and \<open>datetime.now()\<close> is never earlier).
\<close>

definition strftime :: "datetime \<Rightarrow> string" where
  "strftime dt =
     zfill 4 (str_nat (dt_year dt)) @ zfill 2 (str_nat (dt_month dt))
       @ zfill 2 (str_nat (dt_day dt)) @ ''_'' @ zfill 2 (str_nat (dt_hour dt))
       @ zfill 2 (str_nat (dt_minute dt)) @ zfill 2 (str_nat (dt_second dt))"

text \<open>The range of a \<open>datetime\<close> value (MINYEAR is 1, MAXYEAR is 9999).\<close>

definition valid_datetime :: "datetime \<Rightarrow> bool" where
  "valid_datetime dt =
     (1 \<le> dt_year dt \<and> dt_year dt \<le> 9999 \<and> 1 \<le> dt_month dt \<and> dt_month dt \<le> 12
      \<and> 1 \<le> dt_day dt \<and> dt_day dt \<le> 31 \<and> dt_hour dt < 24 \<and> dt_minute dt < 60
      \<and> dt_second dt < 60)"

section \<open>The parsed document (BeautifulSoup)\<close>

text \<open>
  A parsed page is a tree of tags and strings. A tag has a name, its attributes (the
  first entry of a name wins) and its contents. \<open>NavigableString\<close> stands for the
  strings that \<open>get_text\<close> returns. An attribute value is kept as the text of the
  page; BeautifulSoup splits a \<open>class\<close> value at whitespace and searches the pattern in
  each part and in the parts joined by a space, which finds a pattern without whitespace
  exactly when the text of the value contains it.
\<close>

fun descendants :: "node \<Rightarrow> node list" where
  "descendants (Tag name attrs contents) = concat (map (\<lambda>c. c # descendants c) contents)"
| "descendants (NavigableString s) = []"

fun is_tag :: "string \<Rightarrow> node \<Rightarrow> bool" where
  "is_tag name (Tag name' attrs contents) = (name' = name)"
| "is_tag name (NavigableString s) = False"

fun get_attr :: "node \<Rightarrow> string \<Rightarrow> string option" where
  "get_attr (Tag name attrs contents) key = map_of attrs key"
| "get_attr (NavigableString s) key = None"

definition find_all :: "string \<Rightarrow> node \<Rightarrow> node list" where
  "find_all name t = filter (is_tag name) (descendants t)"

text \<open>\<open>t.find(name)\<close>: the first tag of that name below \<open>t\<close>, or None.\<close>

definition find_first :: "string \<Rightarrow> node \<Rightarrow> node option" where
  "find_first name t = List.find (is_tag name) (descendants t)"

text \<open>\<open>t.find(name, {key: re.compile(".*pat.*", re.I)})\<close>\<close>

definition attr_matches :: "string \<Rightarrow> string \<Rightarrow> node \<Rightarrow> bool" where
  "attr_matches key pat t =
     (case get_attr t key of None \<Rightarrow> False | Some v \<Rightarrow> contains_ci pat v)"

definition find_by_attr :: "string \<Rightarrow> string \<Rightarrow> string \<Rightarrow> node \<Rightarrow> node option" where
  "find_by_attr name key pat t =
     List.find (\<lambda>n. is_tag name n \<and> attr_matches key pat n) (descendants t)"

fun navigable_string :: "node \<Rightarrow> string option" where
  "navigable_string (NavigableString s) = Some s"
| "navigable_string (Tag name attrs contents) = None"

text \<open>\<open>t.get_text(strip=True)\<close>: the stripped strings below \<open>t\<close>, empty ones dropped.\<close>

definition get_text :: "node \<Rightarrow> string" where
  "get_text t =
     concat (filter (\<lambda>s. s \<noteq> [])
       (map strip (List.map_filter navigable_string (descendants t))))"

definition href_of :: "node \<Rightarrow> string" where
  "href_of link = (case get_attr link ''href'' of None \<Rightarrow> [] | Some h \<Rightarrow> h)"

section \<open>ResultExtractor: \_extract\_business\_records\<close>

text \<open>The loop over \<open>table_rows[1:]\<close>; a ValueError of \<open>urljoin\<close> ends it.\<close>

fun extract_rows ::
  "environment \<Rightarrow> ScraperConfiguration \<Rightarrow> node list \<Rightarrow> BusinessRecord list
     \<Rightarrow> exn + BusinessRecord list"
where
  "extract_rows E cfg [] business_list = Inr business_list"
| "extract_rows E cfg (row # rows) business_list =
     (let cells = find_all ''td'' row
      in if 3 \<le> length cells then
           (case find_first ''a'' (cells ! 0) of
              None \<Rightarrow> extract_rows E cfg rows business_list
            | Some link_element \<Rightarrow>
                (case urljoin E (target_base_url cfg) (href_of link_element) of
                   Inl e \<Rightarrow> Inl e
                 | Inr link \<Rightarrow>
                     extract_rows E cfg rows
                       (business_list @
                          [\<lparr>entity_name = get_text link_element,
                            sos_identifier = (if 1 < length cells then get_text (cells ! 1) else []),
                            status_text = (if 2 < length cells then get_text (cells ! 2) else []),
                            date_registered = (if 3 < length cells then get_text (cells ! 3) else []),
                            detail_link = link,
                            pdf_documents = []\<rparr>])))
         else extract_rows E cfg rows business_list)"

definition find_result_table :: "node \<Rightarrow> node option" where
  "find_result_table parsed_html =
     (case find_by_attr ''table'' ''class'' ''result'' parsed_html of
        Some t \<Rightarrow> Some t
      | None \<Rightarrow> find_by_attr ''table'' ''id'' ''search'' parsed_html)"

definition extract_business_records ::
  "environment \<Rightarrow> ScraperConfiguration \<Rightarrow> string \<Rightarrow> exn + BusinessRecord list"
where
  "extract_business_records E cfg html_content =
     (case find_result_table (parse_html E html_content) of
        None \<Rightarrow> Inr []
      | Some result_table \<Rightarrow> extract_rows E cfg (drop 1 (find_all ''tr'' result_table)) [])"

section \<open>DocumentLinkExtractor: \_locate\_pdf\_links\<close>

fun collect_pdf_urls ::
  "environment \<Rightarrow> ScraperConfiguration \<Rightarrow> node list \<Rightarrow> string list \<Rightarrow> exn + string list"
where
  "collect_pdf_urls E cfg [] pdf_urls = Inr pdf_urls"
| "collect_pdf_urls E cfg (link # links) pdf_urls =
     (if endswith (lower (href_of link)) ''.pdf'' then
        (case urljoin E (target_base_url cfg) (href_of link) of
           Inl e \<Rightarrow> Inl e
         | Inr full_url \<Rightarrow>
             if full_url \<notin> set pdf_urls
             then collect_pdf_urls E cfg links (pdf_urls @ [full_url])
             else collect_pdf_urls E cfg links pdf_urls)
      else collect_pdf_urls E cfg links pdf_urls)"

text \<open>\<open>find_all("a", href=True)\<close>: the anchors that have an href attribute.\<close>

definition all_links :: "node \<Rightarrow> node list" where
  "all_links parsed_html =
     filter (\<lambda>n. get_attr n ''href'' \<noteq> None) (find_all ''a'' parsed_html)"

definition locate_pdf_links ::
  "environment \<Rightarrow> ScraperConfiguration \<Rightarrow> string \<Rightarrow> exn + string list"
where
  "locate_pdf_links E cfg html_content =
     collect_pdf_urls E cfg (all_links (parse_html E html_content)) []"

section \<open>Downloader: \_download\_pdf\_file\<close>

text \<open>\<open>re.sub(r'[^\w\s-]', '', business_name)[:FILENAME_MAX_LENGTH]\<close>\<close>

definition safe_name :: "string \<Rightarrow> string" where
  "safe_name business_name =
     take FILENAME_MAX_LENGTH
       (filter (\<lambda>c. is_word_char c \<or> is_space_char c \<or> c = CHR ''-'') business_name)"

text \<open>\<open>hashlib.md5(pdf_url.encode()).hexdigest()[:8]\<close>\<close>

definition url_hash :: "string \<Rightarrow> string" where
  "url_hash pdf_url = take 8 (md5_hexdigest (encode pdf_url))"

text \<open>The f-string \<open>f"{safe_name}_{url_hash}_{timestamp}.pdf"\<close>, at the time \<open>dt\<close>.\<close>

definition pdf_filename :: "string \<Rightarrow> string \<Rightarrow> datetime \<Rightarrow> string" where
  "pdf_filename business_name pdf_url dt =
     safe_name business_name @ ''_'' @ url_hash pdf_url @ ''_'' @ strftime dt @ ''.pdf''"

text \<open>
  \<open>str(Path(storage_directory) / filename)\<close> with pathlib's PurePosixPath. A path is
  a root (\<open>//\<close> for exactly two leading slashes, \<open>/\<close> for one or more than two, else
  empty) and its parts, the texts between slashes without the empty ones and the
  \<open>.\<close> ones. Joining keeps the left path unless the right one has a root.
\<close>

definition splitroot :: "string \<Rightarrow> string" where
  "splitroot part =
     (if take 1 part = ''/'' then
        (if length (takeWhile (\<lambda>c. c = CHR ''/'') part) = 2 then ''//'' else ''/'')
      else [])"

definition parse_parts :: "string \<Rightarrow> string list" where
  "parse_parts part = filter (\<lambda>x. x \<noteq> [] \<and> x \<noteq> ''.'') (split_on CHR ''/'' part)"

definition format_parsed_parts :: "string \<Rightarrow> string list \<Rightarrow> string" where
  "format_parsed_parts anchor parts =
     (if anchor @ join ''/'' parts = [] then ''.'' else anchor @ join ''/'' parts)"

definition storage_file :: "ScraperConfiguration \<Rightarrow> string \<Rightarrow> string" where
  "storage_file cfg filename =
     (if splitroot filename \<noteq> []
      then format_parsed_parts (splitroot filename) (parse_parts filename)
      else format_parsed_parts (splitroot (storage_directory cfg))
             (parse_parts (storage_directory cfg) @ parse_parts filename))"

definition download_pdf_file ::
  "environment \<Rightarrow> ScraperConfiguration \<Rightarrow> string \<Rightarrow> string \<Rightarrow> world \<Rightarrow> (exn + string) \<times> world"
where
  "download_pdf_file E cfg pdf_url business_name w =
     (case perform_request E cfg pdf_url 0 w of
        (Inl err, w1) \<Rightarrow>
          (Inl (Exn DocumentRetrievalError (''PDF download failed: '' @ str_exn err)), w1)
      | (Inr response, w1) \<Rightarrow>
          (let filename = pdf_filename business_name pdf_url (now E (requests_made w1));
               file_path = storage_file cfg filename
           in case write_file E (requests_made w1) file_path of
                Some err \<Rightarrow>
                  (Inl (Exn DocumentRetrievalError (''PDF download failed: '' @ str_exn err)), w1)
              | None \<Rightarrow>
                  (Inr file_path,
                   w1\<lparr>events := events w1 @ [Write file_path (resp_content response)]\<rparr>)))"

section \<open>Pipeline\<close>

text \<open>
  The loop of \<open>fetch_business_documents\<close> over the links: a DocumentRetrievalError is
  logged and the loop goes on; any other exception leaves the loop.
\<close>

fun download_each ::
  "environment \<Rightarrow> ScraperConfiguration \<Rightarrow> string \<Rightarrow> string list \<Rightarrow> string list \<Rightarrow> world
     \<Rightarrow> (exn + string list) \<times> world"
where
  "download_each E cfg business_name [] downloaded_paths w = (Inr downloaded_paths, w)"
| "download_each E cfg business_name (pdf_url # pdf_links) downloaded_paths w =
     (case download_pdf_file E cfg pdf_url business_name w of
        (Inr saved_path, w1) \<Rightarrow>
          download_each E cfg business_name pdf_links (downloaded_paths @ [saved_path]) w1
      | (Inl doc_err, w1) \<Rightarrow>
          if exn_type doc_err = DocumentRetrievalError
          then download_each E cfg business_name pdf_links downloaded_paths w1
          else (Inl doc_err, w1))"

text \<open>
  \<open>fetch_business_documents\<close> returns the paths. The record is a mutable object that the
  caller still holds, so the model also returns the record as it is after the call; the
  source assigns to none of its fields.
\<close>

definition fetch_business_documents ::
  "environment \<Rightarrow> ScraperConfiguration \<Rightarrow> BusinessRecord \<Rightarrow> world
     \<Rightarrow> (string list \<times> BusinessRecord) \<times> world"
where
  "fetch_business_documents E cfg business w =
     (case perform_request E cfg (detail_link business) 0 w of
        (Inl err, w1) \<Rightarrow> (([], business), w1)
      | (Inr response, w1) \<Rightarrow>
          (case locate_pdf_links E cfg (resp_text response) of
             Inl err \<Rightarrow> (([], business), w1)
           | Inr pdf_links \<Rightarrow>
               (case download_each E cfg (entity_name business) pdf_links [] w1 of
                  (Inl err, w2) \<Rightarrow> (([], business), w2)
                | (Inr downloaded_paths, w2) \<Rightarrow> ((downloaded_paths, business), w2))))"

definition search_url :: "environment \<Rightarrow> ScraperConfiguration \<Rightarrow> string \<Rightarrow> exn + string" where
  "search_url E cfg query_term =
     (case urljoin E (target_base_url cfg) (search_endpoint cfg) of
        Inl e \<Rightarrow> Inl e
      | Inr u \<Rightarrow> Inr (u @ ''?'' @ urlencode_words query_term))"

text \<open>
  The URL is built before the \<open>try\<close>, so a ValueError of \<open>urljoin\<close> there leaves
  \<open>search_businesses\<close> as it is; every exception inside the \<open>try\<close> becomes a
  SearchOperationError.
\<close>

definition search_businesses ::
  "environment \<Rightarrow> ScraperConfiguration \<Rightarrow> string \<Rightarrow> world
     \<Rightarrow> (exn + BusinessRecord list) \<times> world"
where
  "search_businesses E cfg query_term w =
     (case search_url E cfg query_term of
        Inl e \<Rightarrow> (Inl e, w)
      | Inr full_search_url \<Rightarrow>
          (case perform_request E cfg full_search_url 0 w of
             (Inl err, w1) \<Rightarrow>
               (Inl (Exn SearchOperationError (''Unable to search: '' @ str_exn err)), w1)
           | (Inr response, w1) \<Rightarrow>
               (case extract_business_records E cfg (resp_text response) of
                  Inl err \<Rightarrow>
                    (Inl (Exn SearchOperationError (''Unable to search: '' @ str_exn err)), w1)
                | Inr business_list \<Rightarrow> (Inr business_list, w1))))"

record results_summary =
  search_query :: string
  businesses_found :: nat
  documents_downloaded :: nat
  downloaded_files :: "string list"
  errors :: "string list"

text \<open>
  The \<open>for business in businesses\<close> loop. \<open>seen\<close> collects the records as they are
  after their turn.
\<close>

fun process_businesses ::
  "environment \<Rightarrow> ScraperConfiguration \<Rightarrow> BusinessRecord list \<Rightarrow> BusinessRecord list
     \<Rightarrow> results_summary \<Rightarrow> world \<Rightarrow> (results_summary \<times> BusinessRecord list) \<times> world"
where
  "process_businesses E cfg [] seen summary w = ((summary, seen), w)"
| "process_businesses E cfg (business # businesses) seen summary w =
     (case fetch_business_documents E cfg business w of
        ((doc_paths, business'), w1) \<Rightarrow>
          process_businesses E cfg businesses (seen @ [business'])
            (summary\<lparr>documents_downloaded := documents_downloaded summary + length doc_paths,
                     downloaded_files := downloaded_files summary @ doc_paths\<rparr>) w1)"

definition initial_summary :: "string \<Rightarrow> results_summary" where
  "initial_summary q =
     \<lparr>search_query = q, businesses_found = 0, documents_downloaded = 0,
      downloaded_files = [], errors = []\<rparr>"

text \<open>
  The run: the returned dictionary together with the records the run holds when it
  returns. Only a SearchOperationError is caught.
\<close>

definition run_pipeline ::
  "environment \<Rightarrow> ScraperConfiguration \<Rightarrow> string \<Rightarrow> world
     \<Rightarrow> (exn + results_summary \<times> BusinessRecord list) \<times> world"
where
  "run_pipeline E cfg q w =
     (case search_businesses E cfg q w of
        (Inl search_err, w1) \<Rightarrow>
          if exn_type search_err = SearchOperationError
          then (Inr ((initial_summary q)\<lparr>errors := [str_exn search_err]\<rparr>, []), w1)
          else (Inl search_err, w1)
      | (Inr businesses, w1) \<Rightarrow>
          (case process_businesses E cfg businesses []
                  ((initial_summary q)\<lparr>businesses_found := length businesses\<rparr>) w1 of
             (r, w2) \<Rightarrow> (Inr r, w2)))"

definition process_search_and_download ::
  "environment \<Rightarrow> ScraperConfiguration \<Rightarrow> string \<Rightarrow> world \<Rightarrow> (exn + results_summary) \<times> world"
where
  "process_search_and_download E cfg q w =
     (case run_pipeline E cfg q w of
        (Inl e, w1) \<Rightarrow> (Inl e, w1)
      | (Inr (summary, records), w1) \<Rightarrow> (Inr summary, w1))"

section \<open>Values used in the statements\<close>

text \<open>The defaults of the \<open>ScraperConfiguration\<close> dataclass.\<close>

definition default_configuration :: ScraperConfiguration where
  "default_configuration =
     \<lparr>target_base_url = ''https://www.sosnc.gov'',
      search_endpoint = ''/online_services/search/by_title/_Business_Registration'',
      storage_directory = ''./fetched_documents'',
      request_delay_seconds = 3 / 2,
      connection_timeout = 30,
      max_retry_attempts = 3,
      http_user_agent = ''NCBusinessDocFetcher/1.0''\<rparr>"

definition start :: world where
  "start = \<lparr>requests_made = 0, events = []\<rparr>"

text \<open>A recoverable failure of an attempt: an exception of class RequestException.\<close>

definition recoverable :: "exn + response \<Rightarrow> bool" where
  "recoverable x = (case x of Inl e \<Rightarrow> exn_type e = RequestException | Inr r \<Rightarrow> False)"

text \<open>
  What the \<open>k\<close>-th failed attempt leaves in the log when the call started with
  \<open>retry_count = rc\<close>: the delay, the request, the backoff before the next attempt.
\<close>

definition round_events :: "ScraperConfiguration \<Rightarrow> string \<Rightarrow> int \<Rightarrow> nat \<Rightarrow> event list" where
  "round_events cfg target_url rc k =
     [Sleep (request_delay_seconds cfg), Get target_url (connection_timeout cfg),
      Sleep (of_int ((rc + int k + 1) * 2))]"

text \<open>
  Environments for concrete runs: a network where the request number \<open>i\<close> answers 200
  with the page \<open>page u\<close> of its URL when \<open>up i\<close> holds and times out otherwise;
  \<open>flaky n\<close> is the network whose first \<open>n\<close> requests time out.
\<close>

definition ok_response :: "string \<Rightarrow> string \<Rightarrow> response" where
  "ok_response u body =
     \<lparr>resp_status_code = 200, resp_reason = ''OK'', resp_url = u, resp_text = body,
      resp_content = body\<rparr>"

definition noon :: datetime where
  "noon = \<lparr>dt_year = 2024, dt_month = 5, dt_day = 17, dt_hour = 12, dt_minute = 0,
           dt_second = 0\<rparr>"

definition network :: "(nat \<Rightarrow> bool) \<Rightarrow> (string \<Rightarrow> string) \<Rightarrow> (string \<Rightarrow> node) \<Rightarrow> environment" where
  "network up page parse =
     \<lparr>http_get = (\<lambda>i u. if up i then Inr (ok_response u (page u))
                          else Inl (Exn RequestException ''timed out'')),
      parse_html = parse,
      now = (\<lambda>i. noon),
      write_file = (\<lambda>i p. None),
      ip_address_ok = (\<lambda>h. False)\<rparr>"

definition flaky :: "nat \<Rightarrow> (string \<Rightarrow> string) \<Rightarrow> (string \<Rightarrow> node) \<Rightarrow> environment" where
  "flaky n page parse = network (\<lambda>i. n \<le> i) page parse"

definition empty_document :: node where
  "empty_document = Tag ''[document]'' [] []"

text \<open>
  A small registry site: a results page with a header row and one business, whose
  detail page links \<open>/d/a.pdf\<close>, \<open>/d/B.PDF\<close> and \<open>/d/a.pdf\<close> again. A page is
  named by its text, which \<open>site_parse\<close> turns into the tree.
\<close>

definition search_page :: node where
  "search_page =
     Tag ''[document]'' []
       [Tag ''table'' [(''class'', ''resultsTable'')]
          [Tag ''tr'' []
             [Tag ''th'' [] [NavigableString ''Name''], Tag ''th'' [] [NavigableString ''ID''],
              Tag ''th'' [] [NavigableString ''Status''], Tag ''th'' [] [NavigableString ''Date'']],
           Tag ''tr'' []
             [Tag ''td'' [] [Tag ''a'' [(''href'', ''/detail/1'')] [NavigableString ''Acme LLC'']],
              Tag ''td'' [] [NavigableString ''12345678''],
              Tag ''td'' [] [NavigableString ''Active''],
              Tag ''td'' [] [NavigableString ''2020-06-15'']]]]"

definition detail_page :: node where
  "detail_page =
     Tag ''[document]'' []
       [Tag ''a'' [(''href'', ''/d/a.pdf'')] [NavigableString ''Articles''],
        Tag ''a'' [(''href'', ''/d/B.PDF'')] [NavigableString ''Report''],
        Tag ''a'' [(''href'', ''/d/a.pdf'')] [NavigableString ''Articles again'']]"

definition site_parse :: "string \<Rightarrow> node" where
  "site_parse s =
     (if s = ''search'' then search_page else if s = ''detail'' then detail_page
      else empty_document)"

definition site_page :: "string \<Rightarrow> string" where
  "site_page u =
     (if u = ''https://www.sosnc.gov/online_services/search/by_title/_Business_Registration?Words=acme''
      then ''search''
      else if u = ''https://www.sosnc.gov/detail/1'' then ''detail'' else ''%PDF'')"

definition acme :: BusinessRecord where
  "acme =
     \<lparr>entity_name = ''Acme LLC'', sos_identifier = ''12345678'', status_text = ''Active'',
      date_registered = ''2020-06-15'', detail_link = ''https://www.sosnc.gov/detail/1'',
      pdf_documents = []\<rparr>"

text \<open>
  Specification side (C6): the characters the specification allows in the sanitized name,
  letters, digits, whitespace and hyphens. Letters and digits are the alphanumeric
  characters, that is \<open>\w\<close> without the underscore.
\<close>

definition spec_name_char :: "char \<Rightarrow> bool" where
  "spec_name_char c =
     ((is_word_char c \<and> c \<noteq> CHR ''_'') \<or> is_space_char c \<or> c = CHR ''-'')"

text \<open>A digit of \<open>hexdigest\<close>.\<close>

definition is_lower_hex :: "char \<Rightarrow> bool" where
  "is_lower_hex c = (c \<in> set ''0123456789abcdef'')"

text \<open>
  The conditions under which the loop of the extractor builds a record from a row: at
  least three cells and a link in the first one. \<open>name_link\<close> is that link.
\<close>

definition name_link :: "node \<Rightarrow> node option" where
  "name_link row = find_first ''a'' (find_all ''td'' row ! 0)"

definition yields_record :: "node \<Rightarrow> bool" where
  "yields_record row = (3 \<le> length (find_all ''td'' row) \<and> name_link row \<noteq> None)"

definition row_href :: "node \<Rightarrow> string" where
  "row_href row = (case name_link row of None \<Rightarrow> [] | Some link_element \<Rightarrow> href_of link_element)"

text \<open>
  More pages. \<open>mixed_page\<close>: a table found by its id, with a header, a row of two cells,
  a row of three cells without a link and a row whose link has no href.
  \<open>bracket_page\<close>: a results table whose only link has the href \<open>//[\<close>.
  \<open>query_page\<close>: a detail page whose links are \<open>/d/a.pdf?v=2\<close> and \<open>/view?f=.pdf\<close>.
\<close>

definition mixed_page :: node where
  "mixed_page =
     Tag ''[document]'' []
       [Tag ''table'' [(''id'', ''SearchGrid'')]
          [Tag ''tr'' [] [Tag ''td'' [] [Tag ''a'' [(''href'', ''/h'')] [NavigableString ''Name'']],
                          Tag ''td'' [] [], Tag ''td'' [] []],
           Tag ''tr'' [] [Tag ''td'' [] [Tag ''a'' [(''href'', ''/two'')] [NavigableString ''Two'']],
                          Tag ''td'' [] [NavigableString ''1'']],
           Tag ''tr'' [] [Tag ''td'' [] [NavigableString ''No link''],
                          Tag ''td'' [] [NavigableString ''2''],
                          Tag ''td'' [] [NavigableString ''Active'']],
           Tag ''tr'' [] [Tag ''td'' [] [Tag ''a'' [(''name'', ''x'')] [NavigableString '' Bare Co '']],
                          Tag ''td'' [] [NavigableString ''3''],
                          Tag ''td'' [] [NavigableString ''Dissolved'']]]]"

definition bracket_page :: node where
  "bracket_page =
     Tag ''[document]'' []
       [Tag ''table'' [(''class'', ''resultsTable'')]
          [Tag ''tr'' [] [Tag ''th'' [] [NavigableString ''Name'']],
           Tag ''tr'' [] [Tag ''td'' [] [Tag ''a'' [(''href'', ''//['')] [NavigableString ''Odd'']],
                          Tag ''td'' [] [NavigableString ''4''],
                          Tag ''td'' [] [NavigableString ''Active'']]]]"

definition query_page :: node where
  "query_page =
     Tag ''[document]'' []
       [Tag ''a'' [(''href'', ''/d/a.pdf?v=2'')] [NavigableString ''Articles''],
        Tag ''a'' [(''href'', ''/view?f=.pdf'')] [NavigableString ''Viewer'']]"

text \<open>
  Specification side (C5): the path of a hyperlink target, that is the path component
  that \<open>urlsplit\<close> gives, ends in \<open>.pdf\<close>, compared case-insensitively.
\<close>

definition spec_path_ends_in_pdf :: "environment \<Rightarrow> string \<Rightarrow> bool" where
  "spec_path_ends_in_pdf E href =
     (case urlsplit E href [] of
        Inl e \<Rightarrow> False
      | Inr (scheme, netloc, path, query, fragment) \<Rightarrow> endswith (lower path) ''.pdf'')"

text \<open>What the link extractor tests instead: the whole href ends in \<open>.pdf\<close>.\<close>

definition href_is_pdf :: "string \<Rightarrow> bool" where
  "href_is_pdf href = endswith (lower href) ''.pdf''"

section \<open>Transport: the retry schedule\<close>

lemma concat_map_upt_Suc:
  "concat (map f [0..<Suc j]) = f 0 @ concat (map (\<lambda>k. f (Suc k)) [0..<j])"
proof -
  have "[0..<Suc j] = 0 # map Suc [0..<j]"
    by (simp add: upt_conv_Cons map_Suc_upt del: upt_Suc)
  then show ?thesis by (simp add: comp_def del: upt_Suc)
qed

lemma round_events_shift:
  "round_events cfg target_url (rc + 1) = (\<lambda>k. round_events cfg target_url rc (Suc k))"
  by (rule ext) (simp add: round_events_def algebra_simps)

lemma perform_request_retry_step:
  assumes "0 \<le> request_delay_seconds cfg" and "0 \<le> rc"
    and "rc < max_retry_attempts cfg"
    and "recoverable (attempt E (requests_made w) target_url)"
  shows "perform_request E cfg target_url rc w =
         perform_request E cfg target_url (rc + 1)
           (w\<lparr>requests_made := Suc (requests_made w),
              events := events w @ round_events cfg target_url rc 0\<rparr>)"
proof -
  from assms(4) obtain e where
    "attempt E (requests_made w) target_url = Inl e" "exn_type e = RequestException"
    by (auto simp: recoverable_def split: sum.splits)
  with assms(1-3) show ?thesis
    by (subst perform_request.simps) (simp add: sleep_def sent_def round_events_def)
qed

lemma perform_request_success_after:
  assumes d: "0 \<le> request_delay_seconds cfg"
  shows "0 \<le> rc \<Longrightarrow> rc + int j \<le> max_retry_attempts cfg \<Longrightarrow>
     (\<forall>k<j. recoverable (attempt E (requests_made w + k) target_url)) \<Longrightarrow>
     attempt E (requests_made w + j) target_url = Inr r \<Longrightarrow>
     perform_request E cfg target_url rc w =
       (Inr r, w\<lparr>requests_made := requests_made w + j + 1,
                  events := events w @ concat (map (round_events cfg target_url rc) [0..<j])
                     @ [Sleep (request_delay_seconds cfg),
                        Get target_url (connection_timeout cfg)]\<rparr>)"
proof (induction j arbitrary: rc w)
  case 0
  then show ?case using d
    by (subst perform_request.simps) (simp add: sleep_def sent_def)
next
  case (Suc j)
  let ?w3 = "w\<lparr>requests_made := Suc (requests_made w),
       events := events w @ round_events cfg target_url rc 0\<rparr>"
  from Suc.prems(3) have "recoverable (attempt E (requests_made w + 0) target_url)" by blast
  then have step: "perform_request E cfg target_url rc w =
      perform_request E cfg target_url (rc + 1) ?w3"
    using d Suc.prems(1,2) by (intro perform_request_retry_step) auto
  have fails: "\<forall>k<j. recoverable (attempt E (requests_made ?w3 + k) target_url)"
    using Suc.prems(3) by auto
  have ok: "attempt E (requests_made ?w3 + j) target_url = Inr r"
    using Suc.prems(4) by simp
  have "perform_request E cfg target_url (rc + 1) ?w3 =
       (Inr r, ?w3\<lparr>requests_made := requests_made ?w3 + j + 1,
                  events := events ?w3 @ concat (map (round_events cfg target_url (rc + 1)) [0..<j])
                     @ [Sleep (request_delay_seconds cfg),
                        Get target_url (connection_timeout cfg)]\<rparr>)"
    using Suc.prems(1,2) by (intro Suc.IH fails ok) auto
  then show ?case
    unfolding step by (simp add: concat_map_upt_Suc round_events_shift del: upt_Suc)
qed

lemma perform_request_exhausted_after:
  assumes d: "0 \<le> request_delay_seconds cfg"
  shows "0 \<le> rc \<Longrightarrow> rc + int j = max_retry_attempts cfg \<Longrightarrow>
     (\<forall>k\<le>j. recoverable (attempt E (requests_made w + k) target_url)) \<Longrightarrow>
     attempt E (requests_made w + j) target_url = Inl req_error \<Longrightarrow>
     perform_request E cfg target_url rc w =
       (Inl (Exn SearchOperationError (''Request failed after retries: '' @ str_exn req_error)),
        w\<lparr>requests_made := requests_made w + j + 1,
                  events := events w @ concat (map (round_events cfg target_url rc) [0..<j])
                     @ [Sleep (request_delay_seconds cfg),
                        Get target_url (connection_timeout cfg)]\<rparr>)"
proof (induction j arbitrary: rc w)
  case 0
  then show ?case using d
    by (subst perform_request.simps) (simp add: sleep_def sent_def recoverable_def)
next
  case (Suc j)
  let ?w3 = "w\<lparr>requests_made := Suc (requests_made w),
       events := events w @ round_events cfg target_url rc 0\<rparr>"
  from Suc.prems(3) have "recoverable (attempt E (requests_made w + 0) target_url)" by blast
  then have step: "perform_request E cfg target_url rc w =
      perform_request E cfg target_url (rc + 1) ?w3"
    using d Suc.prems(1,2) by (intro perform_request_retry_step) auto
  have fails: "\<forall>k\<le>j. recoverable (attempt E (requests_made ?w3 + k) target_url)"
    using Suc.prems(3) by auto
  have last: "attempt E (requests_made ?w3 + j) target_url = Inl req_error"
    using Suc.prems(4) by simp
  have "perform_request E cfg target_url (rc + 1) ?w3 =
       (Inl (Exn SearchOperationError (''Request failed after retries: '' @ str_exn req_error)),
        ?w3\<lparr>requests_made := requests_made ?w3 + j + 1,
                  events := events ?w3 @ concat (map (round_events cfg target_url (rc + 1)) [0..<j])
                     @ [Sleep (request_delay_seconds cfg),
                        Get target_url (connection_timeout cfg)]\<rparr>)"
    using Suc.prems(1,2) by (intro Suc.IH fails last) auto
  then show ?case
    unfolding step by (simp add: concat_map_upt_Suc round_events_shift del: upt_Suc)
qed

lemma round_events_0:
  "round_events cfg target_url 0 =
     (\<lambda>k. [Sleep (request_delay_seconds cfg), Get target_url (connection_timeout cfg),
           Sleep (real (2 * (k + 1)))])"
  by (rule ext) (simp add: round_events_def algebra_simps)

text \<open>
  C2. With a delay that is not negative, a call of the transport whose first \<open>j\<close>
  attempts fail recoverably and whose next attempt succeeds, \<open>j\<close> at most
  \<open>max_retry_attempts\<close>, returns the response of that attempt; it sleeps
  \<open>request_delay_seconds\<close> before each of its \<open>j + 1\<close> requests, sleeps \<open>2 * (k + 1)\<close>
  seconds more after the failed attempt \<open>k\<close> (2, 4, 6, ...), and does nothing after the
  success. When all of the \<open>max_retry_attempts + 1\<close> attempts fail recoverably, the log is
  the same schedule with exactly \<open>max_retry_attempts\<close> retries, and the call fails.
\<close>

theorem perform_request_schedule:
  assumes "0 \<le> request_delay_seconds cfg"
  shows "(int j \<le> max_retry_attempts cfg
          \<and> (\<forall>k<j. recoverable (attempt E (requests_made w + k) target_url))
          \<and> attempt E (requests_made w + j) target_url = Inr r
          \<longrightarrow> perform_request E cfg target_url 0 w =
                (Inr r,
                 w\<lparr>requests_made := requests_made w + j + 1,
                   events := events w
                     @ concat (map (\<lambda>k. [Sleep (request_delay_seconds cfg),
                                          Get target_url (connection_timeout cfg),
                                          Sleep (real (2 * (k + 1)))]) [0..<j])
                     @ [Sleep (request_delay_seconds cfg),
                        Get target_url (connection_timeout cfg)]\<rparr>))
       \<and> (int j = max_retry_attempts cfg
          \<and> (\<forall>k\<le>j. recoverable (attempt E (requests_made w + k) target_url))
          \<longrightarrow> (\<exists>e. fst (perform_request E cfg target_url 0 w) = Inl e)
              \<and> snd (perform_request E cfg target_url 0 w) =
                 w\<lparr>requests_made := requests_made w + j + 1,
                   events := events w
                     @ concat (map (\<lambda>k. [Sleep (request_delay_seconds cfg),
                                          Get target_url (connection_timeout cfg),
                                          Sleep (real (2 * (k + 1)))]) [0..<j])
                     @ [Sleep (request_delay_seconds cfg),
                        Get target_url (connection_timeout cfg)]\<rparr>)"
proof (intro conjI impI)
  assume h: "int j \<le> max_retry_attempts cfg
          \<and> (\<forall>k<j. recoverable (attempt E (requests_made w + k) target_url))
          \<and> attempt E (requests_made w + j) target_url = Inr r"
  then show "perform_request E cfg target_url 0 w =
                (Inr r,
                 w\<lparr>requests_made := requests_made w + j + 1,
                   events := events w
                     @ concat (map (\<lambda>k. [Sleep (request_delay_seconds cfg),
                                          Get target_url (connection_timeout cfg),
                                          Sleep (real (2 * (k + 1)))]) [0..<j])
                     @ [Sleep (request_delay_seconds cfg),
                        Get target_url (connection_timeout cfg)]\<rparr>)"
    using perform_request_success_after [OF assms, of 0 j E w target_url r]
    by (simp add: round_events_0)
next
  assume h: "int j = max_retry_attempts cfg
          \<and> (\<forall>k\<le>j. recoverable (attempt E (requests_made w + k) target_url))"
  then have "recoverable (attempt E (requests_made w + j) target_url)" by blast
  then obtain e where e: "attempt E (requests_made w + j) target_url = Inl e"
    by (auto simp: recoverable_def split: sum.splits)
  note ex = perform_request_exhausted_after [OF assms, of 0 j E w target_url e]
  from h e ex show "\<exists>e. fst (perform_request E cfg target_url 0 w) = Inl e"
    by simp
  from h e ex show "snd (perform_request E cfg target_url 0 w) =
                 w\<lparr>requests_made := requests_made w + j + 1,
                   events := events w
                     @ concat (map (\<lambda>k. [Sleep (request_delay_seconds cfg),
                                          Get target_url (connection_timeout cfg),
                                          Sleep (real (2 * (k + 1)))]) [0..<j])
                     @ [Sleep (request_delay_seconds cfg),
                        Get target_url (connection_timeout cfg)]\<rparr>"
    by (simp add: round_events_0)
qed

lemma upt_3: "[0..<3] = [0, 1, 2]"
  by (simp add: upt_rec)

theorem perform_request_schedule_witness:
  "perform_request (flaky 1 (\<lambda>u. ''page'') (\<lambda>s. empty_document)) default_configuration
       ''https://www.sosnc.gov/x'' 0 start =
     (Inr (ok_response ''https://www.sosnc.gov/x'' ''page''),
      \<lparr>requests_made = 2,
       events = [Sleep (3 / 2), Get ''https://www.sosnc.gov/x'' 30, Sleep 2,
                 Sleep (3 / 2), Get ''https://www.sosnc.gov/x'' 30]\<rparr>)
   \<and> snd (perform_request (flaky 9 (\<lambda>u. ''page'') (\<lambda>s. empty_document)) default_configuration
       ''https://www.sosnc.gov/x'' 0 start) =
      \<lparr>requests_made = 4,
       events = [Sleep (3 / 2), Get ''https://www.sosnc.gov/x'' 30, Sleep 2,
                 Sleep (3 / 2), Get ''https://www.sosnc.gov/x'' 30, Sleep 4,
                 Sleep (3 / 2), Get ''https://www.sosnc.gov/x'' 30, Sleep 6,
                 Sleep (3 / 2), Get ''https://www.sosnc.gov/x'' 30]\<rparr>"
proof -
  have d: "0 \<le> request_delay_seconds default_configuration"
    by (simp add: default_configuration_def)
  show ?thesis
    using perform_request_schedule [OF d, of 1 "flaky 1 (\<lambda>u. ''page'') (\<lambda>s. empty_document)" start
        "''https://www.sosnc.gov/x''" "ok_response ''https://www.sosnc.gov/x'' ''page''"]
      perform_request_schedule [OF d, of 3 "flaky 9 (\<lambda>u. ''page'') (\<lambda>s. empty_document)" start
        "''https://www.sosnc.gov/x''" "ok_response ''https://www.sosnc.gov/x'' ''page''"]
    by (simp add: default_configuration_def flaky_def network_def attempt_def raise_for_status_def
        recoverable_def ok_response_def start_def upt_3)
qed

section \<open>Transport: the error after the last retry\<close>





section \<open>Pipeline: what a run returns\<close>

lemma download_pdf_file_raises:
  "download_pdf_file E cfg pdf_url business_name w = (Inl e, w1) \<Longrightarrow>
   exn_type e = DocumentRetrievalError"
  by (auto simp: download_pdf_file_def Let_def split: prod.splits sum.splits option.splits)

lemma download_each_skips:
  assumes "download_pdf_file E cfg pdf_url business_name w = (Inl e, w1)"
  shows "download_each E cfg business_name (pdf_url # pdf_links) downloaded_paths w =
         download_each E cfg business_name pdf_links downloaded_paths w1"
  using assms download_pdf_file_raises [OF assms] by simp

lemma fetch_business_documents_detail_fails:
  "perform_request E cfg (detail_link business) 0 w = (Inl err, w1) \<Longrightarrow>
   fetch_business_documents E cfg business w = (([], business), w1)"
  by (simp add: fetch_business_documents_def)

lemma fetch_business_documents_frame:
  "snd (fst (fetch_business_documents E cfg business w)) = business"
  by (simp add: fetch_business_documents_def split: prod.splits sum.splits)

lemma process_businesses_keeps:
  "process_businesses E cfg businesses seen summary w = ((summary', seen'), w') \<Longrightarrow>
   errors summary' = errors summary \<and> businesses_found summary' = businesses_found summary
   \<and> search_query summary' = search_query summary \<and> seen' = seen @ businesses
   \<and> (documents_downloaded summary = length (downloaded_files summary)
        \<longrightarrow> documents_downloaded summary' = length (downloaded_files summary'))"
proof (induction businesses arbitrary: seen summary w)
  case Nil
  then show ?case by simp
next
  case (Cons business businesses)
  obtain doc_paths business' w1 where
    f: "fetch_business_documents E cfg business w = ((doc_paths, business'), w1)"
    by (metis prod.exhaust)
  have b: "business' = business"
    using fetch_business_documents_frame [of E cfg business w] f by simp
  from Cons.prems f have
    "process_businesses E cfg businesses (seen @ [business'])
       (summary\<lparr>documents_downloaded := documents_downloaded summary + length doc_paths,
                downloaded_files := downloaded_files summary @ doc_paths\<rparr>) w1
     = ((summary', seen'), w')"
    by simp
  from Cons.IH [OF this] b show ?case by simp
qed

lemma run_pipeline_cases:
  "(\<exists>e. search_url E cfg q = Inl e \<and> run_pipeline E cfg q w = (Inl e, w))
   \<or> (\<exists>err w1. search_businesses E cfg q w = (Inl err, w1)
          \<and> exn_type err = SearchOperationError
          \<and> run_pipeline E cfg q w =
              (Inr ((initial_summary q)\<lparr>errors := [str_exn err]\<rparr>, []), w1))
   \<or> (\<exists>businesses w1 summary w2. search_businesses E cfg q w = (Inr businesses, w1)
          \<and> process_businesses E cfg businesses []
               ((initial_summary q)\<lparr>businesses_found := length businesses\<rparr>) w1
             = ((summary, businesses), w2)
          \<and> run_pipeline E cfg q w = (Inr (summary, businesses), w2))"
proof (cases "search_url E cfg q")
  case (Inl e)
  then show ?thesis
    by (simp add: run_pipeline_def search_businesses_def)
next
  case (Inr u)
  obtain x w1 where s: "search_businesses E cfg q w = (x, w1)"
    by (metis prod.exhaust)
  show ?thesis
  proof (cases x)
    case (Inl err)
    with s Inr have "exn_type err = SearchOperationError"
      by (auto simp: search_businesses_def split: prod.splits sum.splits)
    with s Inl show ?thesis
      by (simp add: run_pipeline_def)
  next
    case r: (Inr businesses)
    obtain summary seen' w2 where
      p: "process_businesses E cfg businesses []
            ((initial_summary q)\<lparr>businesses_found := length businesses\<rparr>) w1
          = ((summary, seen'), w2)"
      by (metis prod.exhaust)
    from process_businesses_keeps [OF p] have "seen' = businesses" by simp
    with s r p show ?thesis
      by (simp add: run_pipeline_def)
  qed
qed

text \<open>
  C9. A run either returns a dictionary with
  \<open>documents_downloaded == len(downloaded_files)\<close>, whatever the fetches did, or it does
  not return at all because \<open>urljoin\<close> rejected the configured search URL.
\<close>

theorem documents_downloaded_is_length:
  "case fst (process_search_and_download E cfg q w) of
     Inr summary \<Rightarrow> documents_downloaded summary = length (downloaded_files summary)
   | Inl e \<Rightarrow> search_url E cfg q = Inl e"
proof -
  consider
    (a) e where "search_url E cfg q = Inl e" "run_pipeline E cfg q w = (Inl e, w)"
  | (b) err w1 where "run_pipeline E cfg q w =
              (Inr ((initial_summary q)\<lparr>errors := [str_exn err]\<rparr>, []), w1)"
  | (c) businesses w1 summary w2 where
      "process_businesses E cfg businesses []
               ((initial_summary q)\<lparr>businesses_found := length businesses\<rparr>) w1
             = ((summary, businesses), w2)"
      "run_pipeline E cfg q w = (Inr (summary, businesses), w2)"
    using run_pipeline_cases [of E cfg q w] by blast
  then show ?thesis
  proof cases
    case a
    then show ?thesis by (simp add: process_search_and_download_def)
  next
    case b
    then show ?thesis by (simp add: process_search_and_download_def initial_summary_def)
  next
    case c
    from process_businesses_keeps [OF c(1)] c(2) show ?thesis
      by (simp add: process_search_and_download_def initial_summary_def)
  qed
qed

section \<open>Concrete URLs\<close>

lemma urljoin_detail: "urljoin E ''https://www.sosnc.gov'' ''/detail/1'' = Inr ''https://www.sosnc.gov/detail/1''"
  by code_simp

lemma urljoin_a: "urljoin E ''https://www.sosnc.gov'' ''/d/a.pdf'' = Inr ''https://www.sosnc.gov/d/a.pdf''"
  by code_simp

lemma urljoin_B: "urljoin E ''https://www.sosnc.gov'' ''/d/B.PDF'' = Inr ''https://www.sosnc.gov/d/B.PDF''"
  by code_simp

lemma urljoin_bracket: "urljoin E ''https://www.sosnc.gov'' ''//['' = Inl (Exn ValueError ''Invalid IPv6 URL'')"
  by code_simp

lemma search_url_acme:
  "search_url E default_configuration ''acme'' =
     Inr ''https://www.sosnc.gov/online_services/search/by_title/_Business_Registration?Words=acme''"
  by code_simp

section \<open>Concrete hashes, names and pages\<close>

lemma replicate_numeral_Cons: "replicate (numeral k) x = x # replicate (pred_numeral k) x"
  by (simp add: numeral_eq_Suc)

lemmas md5_eval = md5_hexdigest_def md5_pad_def chunks16.simps md5_block_def md5_round1_def
  md5_round2_def md5_round3_def md5_round4_def md5_F_def md5_G_def md5_H_def md5_I_def
  rotl32_def add32_def not32_def word_hex_le_def hex_byte_def hex_digit_def
  replicate_numeral_Cons

lemma md5_abc: "md5_hexdigest (encode ''abc'') = ''900150983cd24fb0d6963f7d28e17f72''"
  by (simp add: md5_eval encode_def)

lemma md5_two_blocks:
  "md5_hexdigest (encode
     ''12345678901234567890123456789012345678901234567890123456789012345678901234567890'') =
   ''57edf4a22be3c955ac49da2e2107b67a''"
  by (simp add: md5_eval encode_def)

lemma url_hash_a: "url_hash ''https://www.sosnc.gov/d/a.pdf'' = ''b4284ef3''"
  by (simp add: url_hash_def md5_eval encode_def)

lemma url_hash_B: "url_hash ''https://www.sosnc.gov/d/B.PDF'' = ''18ac954c''"
  by (simp add: url_hash_def md5_eval encode_def)

lemma url_hash_138937: "url_hash ''https://www.sosnc.gov/d/138937.pdf'' = ''1c69276c''"
  by (simp add: url_hash_def md5_eval encode_def)

lemma url_hash_158467: "url_hash ''https://www.sosnc.gov/d/158467.pdf'' = ''1c69276c''"
  by (simp add: url_hash_def md5_eval encode_def)

lemma strftime_noon: "strftime noon = ''20240517_120000''"
  by code_simp

lemma safe_name_acme: "safe_name ''Acme LLC'' = ''Acme LLC''"
  by code_simp

lemma extract_search_page:
  "extract_business_records (network up site_page site_parse) default_configuration ''search'' =
     Inr [acme]"
  by code_simp

lemma locate_detail_page:
  "locate_pdf_links (network up site_page site_parse) default_configuration ''detail'' =
     Inr [''https://www.sosnc.gov/d/a.pdf'', ''https://www.sosnc.gov/d/B.PDF'']"
  by code_simp

section \<open>The path of a saved file\<close>

lemma split_on_absent: "c \<notin> set s \<Longrightarrow> split_on c s = [s]"
  by (induction s) auto

lemma parse_parts_name:
  "CHR ''/'' \<notin> set filename \<Longrightarrow> filename \<noteq> [] \<Longrightarrow> filename \<noteq> ''.'' \<Longrightarrow>
   parse_parts filename = [filename]"
  by (simp add: parse_parts_def split_on_absent)

lemma splitroot_name: "CHR ''/'' \<notin> set filename \<Longrightarrow> splitroot filename = []"
  by (cases filename) (auto simp: splitroot_def)

lemma join_snoc:
  "join sep (xs @ [x]) = (if xs = [] then x else join sep xs @ sep @ x)"
  by (induction sep xs rule: join.induct) auto

text \<open>
  A name without a slash, not empty and not \<open>.\<close>, is appended to a prefix that only the
  storage directory decides.
\<close>

lemma storage_file_name:
  assumes "CHR ''/'' \<notin> set filename" "filename \<noteq> []" "filename \<noteq> ''.''"
  shows "storage_file cfg filename =
     splitroot (storage_directory cfg)
       @ (if parse_parts (storage_directory cfg) = [] then []
          else join ''/'' (parse_parts (storage_directory cfg)) @ ''/'')
       @ filename"
  using assms
  by (simp add: storage_file_def splitroot_name parse_parts_name format_parsed_parts_def
      join_snoc)

lemma default_directory_parts:
  "splitroot ''./fetched_documents'' = []"
  "parse_parts ''./fetched_documents'' = [''fetched_documents'']"
  by code_simp+

lemma storage_file_default:
  assumes "CHR ''/'' \<notin> set filename" "filename \<noteq> []" "filename \<noteq> ''.''"
  shows "storage_file default_configuration filename = ''fetched_documents/'' @ filename"
proof -
  have d: "storage_directory default_configuration = ''./fetched_documents''"
    by (simp add: default_configuration_def)
  show ?thesis
    unfolding storage_file_name [OF assms] d default_directory_parts by simp
qed

section \<open>A run on the small registry site\<close>

lemma perform_request_first_ok:
  assumes "0 \<le> request_delay_seconds cfg" "0 \<le> max_retry_attempts cfg"
    and "attempt E (requests_made w) target_url = Inr r"
  shows "perform_request E cfg target_url 0 w =
     (Inr r, w\<lparr>requests_made := Suc (requests_made w),
                events := events w @ [Sleep (request_delay_seconds cfg),
                                      Get target_url (connection_timeout cfg)]\<rparr>)"
  using perform_request_success_after [OF assms(1), of 0 0 E w target_url r] assms(2,3)
  by simp

lemma network_request_ok:
  assumes "up (requests_made w)"
  shows "perform_request (network up page parse) default_configuration u 0 w =
     (Inr (ok_response u (page u)),
      w\<lparr>requests_made := Suc (requests_made w),
        events := events w @ [Sleep (3 / 2), Get u 30]\<rparr>)"
proof -
  have "attempt (network up page parse) (requests_made w) u = Inr (ok_response u (page u))"
    using assms by (simp add: attempt_def network_def raise_for_status_def ok_response_def)
  from perform_request_first_ok [OF _ _ this, of default_configuration]
  show ?thesis by (simp add: default_configuration_def)
qed

lemma network_request_down:
  assumes "\<forall>k\<le>3. \<not> up (requests_made w + k)"
  shows "perform_request (network up page parse) default_configuration u 0 w =
     (Inl (Exn SearchOperationError ''Request failed after retries: timed out''),
      w\<lparr>requests_made := requests_made w + 4,
        events := events w @ [Sleep (3 / 2), Get u 30, Sleep 2, Sleep (3 / 2), Get u 30, Sleep 4,
                              Sleep (3 / 2), Get u 30, Sleep 6, Sleep (3 / 2), Get u 30]\<rparr>)"
proof -
  have d: "0 \<le> request_delay_seconds default_configuration"
    by (simp add: default_configuration_def)
  have a: "attempt (network up page parse) (requests_made w + k) u =
             Inl (Exn RequestException ''timed out'')" if "k \<le> 3" for k
    using assms that by (simp add: attempt_def network_def)
  have "\<forall>k\<le>3. recoverable (attempt (network up page parse) (requests_made w + k) u)"
    by (simp add: a recoverable_def)
  from perform_request_exhausted_after [OF d _ _ this a, of 0]
  show ?thesis
    by (simp add: default_configuration_def upt_3 round_events_def)
qed

lemma site_request:
  "perform_request (network (\<lambda>i. True) site_page site_parse) default_configuration u 0 w =
     (Inr (ok_response u (site_page u)),
      w\<lparr>requests_made := Suc (requests_made w),
        events := events w @ [Sleep (3 / 2), Get u 30]\<rparr>)"
  by (simp add: network_request_ok)

lemma network_fields:
  "now (network up page parse) i = noon"
  "write_file (network up page parse) i p = None"
  "storage_directory default_configuration = ''./fetched_documents''"
  "resp_content (ok_response u body) = body"
  by (simp_all add: network_def default_configuration_def ok_response_def)

lemma site_download_a:
  "download_pdf_file (network (\<lambda>i. True) site_page site_parse) default_configuration
      ''https://www.sosnc.gov/d/a.pdf'' ''Acme LLC'' w =
     (Inr ''fetched_documents/Acme LLC_b4284ef3_20240517_120000.pdf'',
      w\<lparr>requests_made := Suc (requests_made w),
        events := events w @ [Sleep (3 / 2), Get ''https://www.sosnc.gov/d/a.pdf'' 30,
          Write ''fetched_documents/Acme LLC_b4284ef3_20240517_120000.pdf'' ''%PDF'']\<rparr>)"
  by (simp add: download_pdf_file_def site_request pdf_filename_def url_hash_a strftime_noon
      safe_name_acme storage_file_default network_fields site_page_def Let_def)

lemma site_download_B:
  "download_pdf_file (network (\<lambda>i. True) site_page site_parse) default_configuration
      ''https://www.sosnc.gov/d/B.PDF'' ''Acme LLC'' w =
     (Inr ''fetched_documents/Acme LLC_18ac954c_20240517_120000.pdf'',
      w\<lparr>requests_made := Suc (requests_made w),
        events := events w @ [Sleep (3 / 2), Get ''https://www.sosnc.gov/d/B.PDF'' 30,
          Write ''fetched_documents/Acme LLC_18ac954c_20240517_120000.pdf'' ''%PDF'']\<rparr>)"
  by (simp add: download_pdf_file_def site_request pdf_filename_def url_hash_B strftime_noon
      safe_name_acme storage_file_default network_fields site_page_def Let_def)

lemma site_fetch_acme:
  "fetch_business_documents (network (\<lambda>i. True) site_page site_parse) default_configuration
      acme w =
     (([''fetched_documents/Acme LLC_b4284ef3_20240517_120000.pdf'',
        ''fetched_documents/Acme LLC_18ac954c_20240517_120000.pdf''], acme),
      w\<lparr>requests_made := Suc (Suc (Suc (requests_made w))),
        events := events w @ [Sleep (3 / 2), Get ''https://www.sosnc.gov/detail/1'' 30,
          Sleep (3 / 2), Get ''https://www.sosnc.gov/d/a.pdf'' 30,
          Write ''fetched_documents/Acme LLC_b4284ef3_20240517_120000.pdf'' ''%PDF'',
          Sleep (3 / 2), Get ''https://www.sosnc.gov/d/B.PDF'' 30,
          Write ''fetched_documents/Acme LLC_18ac954c_20240517_120000.pdf'' ''%PDF'']\<rparr>)"
proof -
  have t: "resp_text (ok_response ''https://www.sosnc.gov/detail/1''
             (site_page ''https://www.sosnc.gov/detail/1'')) = ''detail''"
    by (simp add: ok_response_def site_page_def)
  have n: "entity_name acme = ''Acme LLC''" "detail_link acme = ''https://www.sosnc.gov/detail/1''"
    by (simp_all add: acme_def)
  show ?thesis
    by (simp add: fetch_business_documents_def n site_request t locate_detail_page
        site_download_a site_download_B)
qed

lemma site_search:
  "search_businesses (network (\<lambda>i. True) site_page site_parse) default_configuration
      ''acme'' w =
     (Inr [acme],
      w\<lparr>requests_made := Suc (requests_made w),
        events := events w @ [Sleep (3 / 2),
          Get ''https://www.sosnc.gov/online_services/search/by_title/_Business_Registration?Words=acme'' 30]\<rparr>)"
proof -
  have t: "resp_text (ok_response u (site_page
      ''https://www.sosnc.gov/online_services/search/by_title/_Business_Registration?Words=acme''))
      = ''search''" for u
    by (simp add: ok_response_def site_page_def)
  show ?thesis
    by (simp add: search_businesses_def search_url_acme site_request t extract_search_page)
qed

lemma site_run:
  "run_pipeline (network (\<lambda>i. True) site_page site_parse) default_configuration ''acme'' start =
     (Inr (\<lparr>search_query = ''acme'', businesses_found = 1, documents_downloaded = 2,
            downloaded_files =
              [''fetched_documents/Acme LLC_b4284ef3_20240517_120000.pdf'',
               ''fetched_documents/Acme LLC_18ac954c_20240517_120000.pdf''],
            errors = []\<rparr>, [acme]),
      \<lparr>requests_made = 4,
       events = [Sleep (3 / 2),
          Get ''https://www.sosnc.gov/online_services/search/by_title/_Business_Registration?Words=acme'' 30,
          Sleep (3 / 2), Get ''https://www.sosnc.gov/detail/1'' 30,
          Sleep (3 / 2), Get ''https://www.sosnc.gov/d/a.pdf'' 30,
          Write ''fetched_documents/Acme LLC_b4284ef3_20240517_120000.pdf'' ''%PDF'',
          Sleep (3 / 2), Get ''https://www.sosnc.gov/d/B.PDF'' 30,
          Write ''fetched_documents/Acme LLC_18ac954c_20240517_120000.pdf'' ''%PDF'']\<rparr>)"
  by (simp add: run_pipeline_def site_search site_fetch_acme initial_summary_def start_def)

section \<open>Pipeline: which failures reach the error list\<close>

text \<open>
  C9's witness: the run on the small site downloads two documents and lists two files.
\<close>

theorem documents_downloaded_is_length_witness:
  "case fst (process_search_and_download (network (\<lambda>i. True) site_page site_parse)
               default_configuration ''acme'' start) of
     Inr summary \<Rightarrow> documents_downloaded summary = length (downloaded_files summary)
                    \<and> documents_downloaded summary = 2
   | Inl e \<Rightarrow> False"
  using documents_downloaded_is_length [of "network (\<lambda>i. True) site_page site_parse"
      default_configuration "''acme''" start]
  by (simp add: process_search_and_download_def site_run)

lemma search_businesses_request_fails:
  "search_url E cfg q = Inr u \<Longrightarrow> perform_request E cfg u 0 w = (Inl err, w1) \<Longrightarrow>
   search_businesses E cfg q w =
     (Inl (Exn SearchOperationError (''Unable to search: '' @ str_exn err)), w1)"
  by (simp add: search_businesses_def)

lemma process_businesses_detail_fails:
  "perform_request E cfg (detail_link business) 0 w = (Inl err, w1) \<Longrightarrow>
   process_businesses E cfg (business # rest) seen summary w =
   process_businesses E cfg rest (seen @ [business]) summary w1"
  by (simp add: fetch_business_documents_detail_fails)

text \<open>
  C1. (1) When the request of the search step fails, the run returns zero businesses, zero
  documents, no files and exactly one error message, and the world is the one the search
  request left: nothing was done for any business. (2) When the search step succeeds the
  error list of the outcome is empty. (3) A business whose detail request fails leaves
  the summary as it was and the loop goes on with the remaining businesses. (4) A
  document whose download fails leaves the list of paths as it was and the loop goes on
  with the remaining links. (5) One business found whose detail request fails: one
  business, zero documents, no error.
\<close>

theorem only_search_failure_is_reported:
  "(search_url E cfg q = Inr u \<and> perform_request E cfg u 0 w = (Inl err, w1)
      \<longrightarrow> process_search_and_download E cfg q w =
            (Inr \<lparr>search_query = q, businesses_found = 0, documents_downloaded = 0,
                   downloaded_files = [],
                   errors = [''Unable to search: '' @ str_exn err]\<rparr>, w1))
   \<and> (search_businesses E cfg q w = (Inr businesses, w1)
      \<longrightarrow> (\<exists>summary w2. process_search_and_download E cfg q w = (Inr summary, w2)
             \<and> errors summary = [] \<and> businesses_found summary = length businesses))
   \<and> (perform_request E cfg (detail_link business) 0 w = (Inl err, w1)
      \<longrightarrow> process_businesses E cfg (business # rest) seen summary0 w =
          process_businesses E cfg rest (seen @ [business]) summary0 w1)
   \<and> (download_pdf_file E cfg pdf_url business_name w = (Inl err, w1)
      \<longrightarrow> download_each E cfg business_name (pdf_url # pdf_links) downloaded_paths w =
          download_each E cfg business_name pdf_links downloaded_paths w1)
   \<and> (search_businesses E cfg q w = (Inr [business], w1)
        \<and> perform_request E cfg (detail_link business) 0 w1 = (Inl err, w2)
      \<longrightarrow> process_search_and_download E cfg q w =
            (Inr \<lparr>search_query = q, businesses_found = 1, documents_downloaded = 0,
                   downloaded_files = [], errors = []\<rparr>, w2))"
proof (intro conjI impI)
  assume "search_url E cfg q = Inr u \<and> perform_request E cfg u 0 w = (Inl err, w1)"
  then have "search_businesses E cfg q w =
     (Inl (Exn SearchOperationError (''Unable to search: '' @ str_exn err)), w1)"
    by (simp add: search_businesses_request_fails)
  then show "process_search_and_download E cfg q w =
            (Inr \<lparr>search_query = q, businesses_found = 0, documents_downloaded = 0,
                   downloaded_files = [],
                   errors = [''Unable to search: '' @ str_exn err]\<rparr>, w1)"
    by (simp add: process_search_and_download_def run_pipeline_def initial_summary_def)
next
  assume s: "search_businesses E cfg q w = (Inr businesses, w1)"
  obtain summary seen' w2 where
    p: "process_businesses E cfg businesses []
          ((initial_summary q)\<lparr>businesses_found := length businesses\<rparr>) w1
        = ((summary, seen'), w2)"
    by (metis prod.exhaust)
  from process_businesses_keeps [OF p]
  have "errors summary = []" "businesses_found summary = length businesses"
    by (simp_all add: initial_summary_def)
  moreover from s p have "process_search_and_download E cfg q w = (Inr summary, w2)"
    by (simp add: process_search_and_download_def run_pipeline_def)
  ultimately show "\<exists>summary w2. process_search_and_download E cfg q w = (Inr summary, w2)
             \<and> errors summary = [] \<and> businesses_found summary = length businesses"
    by blast
next
  assume "perform_request E cfg (detail_link business) 0 w = (Inl err, w1)"
  then show "process_businesses E cfg (business # rest) seen summary0 w =
          process_businesses E cfg rest (seen @ [business]) summary0 w1"
    by (rule process_businesses_detail_fails)
next
  assume "download_pdf_file E cfg pdf_url business_name w = (Inl err, w1)"
  then show "download_each E cfg business_name (pdf_url # pdf_links) downloaded_paths w =
          download_each E cfg business_name pdf_links downloaded_paths w1"
    by (rule download_each_skips)
next
  assume "search_businesses E cfg q w = (Inr [business], w1)
        \<and> perform_request E cfg (detail_link business) 0 w1 = (Inl err, w2)"
  then show "process_search_and_download E cfg q w =
            (Inr \<lparr>search_query = q, businesses_found = 1, documents_downloaded = 0,
                   downloaded_files = [], errors = []\<rparr>, w2)"
    by (simp add: process_search_and_download_def run_pipeline_def initial_summary_def
        fetch_business_documents_detail_fails)
qed
lemma network_search:
  assumes "up (requests_made w)"
  shows "search_businesses (network up site_page site_parse) default_configuration ''acme'' w =
     (Inr [acme],
      w\<lparr>requests_made := Suc (requests_made w),
        events := events w @ [Sleep (3 / 2),
          Get ''https://www.sosnc.gov/online_services/search/by_title/_Business_Registration?Words=acme'' 30]\<rparr>)"
proof -
  have t: "resp_text (ok_response u (site_page
      ''https://www.sosnc.gov/online_services/search/by_title/_Business_Registration?Words=acme''))
      = ''search''" for u
    by (simp add: ok_response_def site_page_def)
  show ?thesis
    by (simp add: search_businesses_def search_url_acme network_request_ok [of up w, OF assms] t
        extract_search_page)
qed

theorem only_search_failure_is_reported_witness:
  "process_search_and_download (flaky 9 site_page site_parse) default_configuration ''acme''
       start =
     (Inr \<lparr>search_query = ''acme'', businesses_found = 0, documents_downloaded = 0,
            downloaded_files = [],
            errors = [''Unable to search: Request failed after retries: timed out'']\<rparr>,
      \<lparr>requests_made = 4,
       events =
         [Sleep (3 / 2),
          Get ''https://www.sosnc.gov/online_services/search/by_title/_Business_Registration?Words=acme'' 30,
          Sleep 2, Sleep (3 / 2),
          Get ''https://www.sosnc.gov/online_services/search/by_title/_Business_Registration?Words=acme'' 30,
          Sleep 4, Sleep (3 / 2),
          Get ''https://www.sosnc.gov/online_services/search/by_title/_Business_Registration?Words=acme'' 30,
          Sleep 6, Sleep (3 / 2),
          Get ''https://www.sosnc.gov/online_services/search/by_title/_Business_Registration?Words=acme'' 30]\<rparr>)
   \<and> fst (process_search_and_download (network (\<lambda>i. i < 1) site_page site_parse)
            default_configuration ''acme'' start) =
     Inr \<lparr>search_query = ''acme'', businesses_found = 1, documents_downloaded = 0,
           downloaded_files = [], errors = []\<rparr>"
proof -
  let ?U = "''https://www.sosnc.gov/online_services/search/by_title/_Business_Registration?Words=acme''"
  let ?D = "network (\<lambda>i. i < 1) site_page site_parse"
  have c: "perform_request (flaky 9 site_page site_parse) default_configuration ?U 0 start =
     (Inl (Exn SearchOperationError ''Request failed after retries: timed out''),
      start\<lparr>requests_made := requests_made start + 4,
        events := events start @ [Sleep (3 / 2), Get ?U 30, Sleep 2, Sleep (3 / 2), Get ?U 30,
          Sleep 4, Sleep (3 / 2), Get ?U 30, Sleep 6, Sleep (3 / 2), Get ?U 30]\<rparr>)"
    unfolding flaky_def by (rule network_request_down [of "\<lambda>i. 9 \<le> i" start]) (simp add: start_def)
  have s: "search_businesses ?D default_configuration ''acme'' start =
     (Inr [acme], start\<lparr>requests_made := Suc (requests_made start),
        events := events start @ [Sleep (3 / 2), Get ?U 30]\<rparr>)"
    by (rule network_search [of "\<lambda>i. i < 1" start]) (simp add: start_def)
  have d: "perform_request ?D default_configuration (detail_link acme) 0
      (start\<lparr>requests_made := Suc (requests_made start),
        events := events start @ [Sleep (3 / 2), Get ?U 30]\<rparr>) =
     (Inl (Exn SearchOperationError ''Request failed after retries: timed out''),
      (start\<lparr>requests_made := Suc (requests_made start),
        events := events start @ [Sleep (3 / 2), Get ?U 30]\<rparr>)
       \<lparr>requests_made := requests_made (start\<lparr>requests_made := Suc (requests_made start),
        events := events start @ [Sleep (3 / 2), Get ?U 30]\<rparr>) + 4,
        events := events (start\<lparr>requests_made := Suc (requests_made start),
        events := events start @ [Sleep (3 / 2), Get ?U 30]\<rparr>)
          @ [Sleep (3 / 2), Get (detail_link acme) 30, Sleep 2,
             Sleep (3 / 2), Get (detail_link acme) 30, Sleep 4,
             Sleep (3 / 2), Get (detail_link acme) 30, Sleep 6,
             Sleep (3 / 2), Get (detail_link acme) 30]\<rparr>)"
    by (rule network_request_down [of "\<lambda>i. i < 1"]) simp
  note t = only_search_failure_is_reported
  from t [THEN conjunct1, rule_format, OF conjI, OF search_url_acme c]
    t [THEN conjunct2, THEN conjunct2, THEN conjunct2, THEN conjunct2, rule_format, OF conjI,
       OF s d]
  show ?thesis
    by (simp add: start_def)
qed

section \<open>BusinessRecord: what happens after construction\<close>

lemma extract_rows_pdf_documents:
  "extract_rows E cfg rows business_list = Inr records \<Longrightarrow>
   \<forall>b\<in>set business_list. pdf_documents b = [] \<Longrightarrow>
   \<forall>b\<in>set records. pdf_documents b = []"
proof (induction rows arbitrary: business_list)
  case Nil
  then show ?case by simp
next
  case (Cons row rows)
  show ?case
  proof (cases "3 \<le> length (find_all ''td'' row)")
    case False
    with Cons.prems Cons.IH [of business_list] show ?thesis by simp
  next
    case True
    show ?thesis
    proof (cases "find_first ''a'' (find_all ''td'' row ! 0)")
      case None
      with True Cons.prems Cons.IH [of business_list] show ?thesis by simp
    next
      case (Some link_element)
      show ?thesis
      proof (cases "urljoin E (target_base_url cfg) (href_of link_element)")
        case (Inl e)
        with True Some Cons.prems show ?thesis by simp
      next
        case (Inr link)
        let ?acc = "business_list @
           [\<lparr>entity_name = get_text link_element,
             sos_identifier = (if 1 < length (find_all ''td'' row)
                               then get_text (find_all ''td'' row ! 1) else []),
             status_text = (if 2 < length (find_all ''td'' row)
                            then get_text (find_all ''td'' row ! 2) else []),
             date_registered = (if 3 < length (find_all ''td'' row)
                                then get_text (find_all ''td'' row ! 3) else []),
             detail_link = link, pdf_documents = []\<rparr>]"
        from True Some Inr Cons.prems(1) have "extract_rows E cfg rows ?acc = Inr records"
          by (simp add: Let_def)
        moreover have "\<forall>b\<in>set ?acc. pdf_documents b = []"
          using Cons.prems(2) by simp
        ultimately show ?thesis by (rule Cons.IH)
      qed
    qed
  qed
qed

lemma search_businesses_pdf_documents:
  assumes "search_businesses E cfg q w = (Inr businesses, w1)"
  shows "\<forall>b\<in>set businesses. pdf_documents b = []"
proof -
  from assms obtain html where
    "extract_business_records E cfg html = Inr businesses"
    by (auto simp: search_businesses_def split: sum.splits prod.splits)
  then show ?thesis
    by (auto simp: extract_business_records_def split: option.splits
        dest: extract_rows_pdf_documents)
qed

text \<open>
  C3, as stated, fails: on the small site the detail request succeeds and the page
  has two document links, both are downloaded, and the record the run holds still has an
  empty \<open>pdf_documents\<close>.
\<close>

theorem pdf_documents_not_populated:
  "locate_pdf_links (network (\<lambda>i. True) site_page site_parse) default_configuration ''detail''
     = Inr [''https://www.sosnc.gov/d/a.pdf'', ''https://www.sosnc.gov/d/B.PDF'']
   \<and> (case fst (run_pipeline (network (\<lambda>i. True) site_page site_parse)
                   default_configuration ''acme'' start) of
        Inr (summary, records) \<Rightarrow>
          documents_downloaded summary = 2 \<and> map pdf_documents records = [[]]
      | Inl e \<Rightarrow> False)"
  by (simp add: locate_detail_page site_run acme_def)

text \<open>
  C3, amended. No field of a record changes after construction: the call for a business
  returns the record as it was, the records a run holds when it returns are the ones the
  search step built, and \<open>pdf_documents\<close> of each of them is empty, also after a detail
  request that succeeded.
\<close>

theorem records_unchanged_by_run:
  "snd (fst (fetch_business_documents E cfg business w)) = business
   \<and> (run_pipeline E cfg q w = (Inr (summary, records), w')
      \<longrightarrow> (\<forall>b\<in>set records. pdf_documents b = [])
          \<and> (records = [] \<or> (\<exists>w1. search_businesses E cfg q w = (Inr records, w1))))"
proof -
  have "(\<forall>b\<in>set records. pdf_documents b = [])
          \<and> (records = [] \<or> (\<exists>w1. search_businesses E cfg q w = (Inr records, w1)))"
    if r: "run_pipeline E cfg q w = (Inr (summary, records), w')"
  proof -
    from run_pipeline_cases [of E cfg q w] r
    have c: "records = [] \<or> (\<exists>w1. search_businesses E cfg q w = (Inr records, w1))"
      by auto
    then show ?thesis
      using search_businesses_pdf_documents by auto
  qed
  then show ?thesis
    by (simp add: fetch_business_documents_frame)
qed

theorem records_unchanged_by_run_witness:
  "snd (fst (fetch_business_documents (network (\<lambda>i. True) site_page site_parse)
               default_configuration acme start)) = acme
   \<and> pdf_documents acme = []
   \<and> search_businesses (network (\<lambda>i. True) site_page site_parse) default_configuration
        ''acme'' start =
      (Inr [acme],
       \<lparr>requests_made = 1,
        events = [Sleep (3 / 2),
          Get ''https://www.sosnc.gov/online_services/search/by_title/_Business_Registration?Words=acme'' 30]\<rparr>)"
  using records_unchanged_by_run [of "network (\<lambda>i. True) site_page site_parse"
      default_configuration acme start "''acme''", THEN conjunct2, rule_format, OF site_run]
    records_unchanged_by_run [of "network (\<lambda>i. True) site_page site_parse"
      default_configuration acme start, THEN conjunct1]
  by (simp add: site_search start_def)

section \<open>Downloader: the file name\<close>

lemma length_word_hex_le: "length (word_hex_le x) = 8"
  by (simp add: word_hex_le_def hex_byte_def)

lemma length_md5_hexdigest: "length (md5_hexdigest bs) = 32"
  by (simp add: md5_hexdigest_def length_word_hex_le split: prod.splits)

lemma hex_digit_lower: "d < 16 \<Longrightarrow> is_lower_hex (hex_digit d)"
  unfolding hex_digit_def is_lower_hex_def by (rule nth_mem) simp

lemma hex_byte_lower: "b < 256 \<Longrightarrow> list_all is_lower_hex (hex_byte b)"
proof -
  assume "b < 256"
  then have "b div 16 < 16" "b mod 16 < 16" by auto
  then show ?thesis
    by (simp add: hex_byte_def hex_digit_lower)
qed

lemma word_hex_le_lower: "list_all is_lower_hex (word_hex_le x)"
  by (simp add: word_hex_le_def hex_byte_lower)

lemma md5_hexdigest_lower: "list_all is_lower_hex (md5_hexdigest bs)"
  by (simp add: md5_hexdigest_def word_hex_le_lower split: prod.splits)

lemma url_hash_form:
  "length (url_hash pdf_url) = 8 \<and> list_all is_lower_hex (url_hash pdf_url)"
proof -
  have "set (take 8 (md5_hexdigest (encode pdf_url))) \<subseteq> set (md5_hexdigest (encode pdf_url))"
    by (rule set_take_subset)
  with md5_hexdigest_lower [of "encode pdf_url"] show ?thesis
    by (auto simp add: url_hash_def length_md5_hexdigest list_all_iff)
qed

lemma is_ascii_digit_digit_char: "d < 10 \<Longrightarrow> is_ascii_digit (digit_char d)"
  by (simp add: is_ascii_digit_def digit_char_def)

lemma str_nat_digits: "list_all is_ascii_digit (str_nat n)"
proof (induction n rule: str_nat.induct)
  case (1 n)
  show ?case
  proof (cases "n < 10")
    case True
    then show ?thesis
      by (subst str_nat.simps) (simp add: is_ascii_digit_digit_char)
  next
    case False
    with "1" show ?thesis
      by (subst str_nat.simps) (simp add: is_ascii_digit_digit_char)
  qed
qed

lemma length_str_nat: "0 < k \<Longrightarrow> n < 10 ^ k \<Longrightarrow> length (str_nat n) \<le> k"
proof (induction k arbitrary: n)
  case 0
  then show ?case by simp
next
  case (Suc k)
  show ?case
  proof (cases "n < 10")
    case True
    then show ?thesis by (subst str_nat.simps) simp
  next
    case False
    with Suc.prems have k: "0 < k"
      by (cases k) auto
    from Suc.prems have "n div 10 < 10 ^ k"
      by (simp add: less_mult_imp_div_less mult.commute)
    from Suc.IH [OF k this] False show ?thesis
      by (subst str_nat.simps) simp
  qed
qed

lemma zfill_form:
  assumes "length s \<le> width" "list_all is_ascii_digit s"
  shows "length (zfill width s) = width \<and> list_all is_ascii_digit (zfill width s)"
proof -
  have "is_ascii_digit CHR ''0''"
    by (simp add: is_ascii_digit_def)
  with assms show ?thesis
    by (auto simp: zfill_def list_all_iff)
qed

lemma zfill_str_nat:
  assumes "0 < k" "n < 10 ^ k"
  shows "length (zfill k (str_nat n)) = k \<and> list_all is_ascii_digit (zfill k (str_nat n))"
  using zfill_form [OF length_str_nat [OF assms] str_nat_digits] .

lemma strftime_form:
  assumes "valid_datetime dt"
  shows "\<exists>ymd hms. strftime dt = ymd @ ''_'' @ hms \<and> length ymd = 8 \<and> length hms = 6
           \<and> list_all is_ascii_digit ymd \<and> list_all is_ascii_digit hms"
proof -
  from assms have
    y: "dt_year dt < 10 ^ 4" and m: "dt_month dt < 10 ^ 2" and d: "dt_day dt < 10 ^ 2"
    and h: "dt_hour dt < 10 ^ 2" and mi: "dt_minute dt < 10 ^ 2" and s: "dt_second dt < 10 ^ 2"
    by (simp_all add: valid_datetime_def)
  let ?ymd = "zfill 4 (str_nat (dt_year dt)) @ zfill 2 (str_nat (dt_month dt))
       @ zfill 2 (str_nat (dt_day dt))"
  let ?hms = "zfill 2 (str_nat (dt_hour dt))
       @ zfill 2 (str_nat (dt_minute dt)) @ zfill 2 (str_nat (dt_second dt))"
  have "strftime dt = ?ymd @ ''_'' @ ?hms"
    by (simp add: strftime_def)
  moreover have "length ?ymd = 8 \<and> list_all is_ascii_digit ?ymd"
    using zfill_str_nat [OF _ y] zfill_str_nat [OF _ m] zfill_str_nat [OF _ d] by simp
  moreover have "length ?hms = 6 \<and> list_all is_ascii_digit ?hms"
    using zfill_str_nat [OF _ h] zfill_str_nat [OF _ mi] zfill_str_nat [OF _ s] by simp
  ultimately show ?thesis by blast
qed

lemma safe_name_form:
  "length (safe_name business_name) \<le> FILENAME_MAX_LENGTH
   \<and> (\<forall>c\<in>set (safe_name business_name). is_word_char c \<or> is_space_char c \<or> c = CHR ''-'')"
proof -
  have "set (safe_name business_name)
          \<subseteq> set (filter (\<lambda>c. is_word_char c \<or> is_space_char c \<or> c = CHR ''-'') business_name)"
    unfolding safe_name_def by (rule set_take_subset)
  then show ?thesis
    by (auto simp: safe_name_def)
qed

text \<open>
  C6, as stated, fails: the underscore is a word character of the regular expression, so
  it stays in the sanitized name, and it is not a letter, a digit, whitespace or a hyphen.
\<close>

theorem safe_name_keeps_underscore:
  "safe_name ''A_B'' = ''A_B'' \<and> \<not> list_all spec_name_char (safe_name ''A_B'')"
  by code_simp

text \<open>
  C6, amended. At a time in the range of \<open>datetime\<close> the file name is the sanitized name, an underscore, eight
  lower-case hex digits, an underscore, eight digits, an underscore, six digits and
  \<open>.pdf\<close>. The sanitized name has at most FILENAME\_MAX\_LENGTH (50) characters, each a
  word character (letter, digit or underscore), whitespace or a hyphen. So the file name
  has at most 50 + 29 characters.
\<close>

theorem pdf_filename_form:
  assumes "valid_datetime dt"
  shows "\<exists>ymd hms.
           pdf_filename business_name pdf_url dt =
             safe_name business_name @ ''_'' @ url_hash pdf_url @ ''_'' @ ymd @ ''_'' @ hms
               @ ''.pdf''
           \<and> length ymd = 8 \<and> length hms = 6
           \<and> list_all is_ascii_digit ymd \<and> list_all is_ascii_digit hms
           \<and> length (url_hash pdf_url) = 8
           \<and> list_all is_lower_hex (url_hash pdf_url)
           \<and> length (safe_name business_name) \<le> FILENAME_MAX_LENGTH
           \<and> (\<forall>c\<in>set (safe_name business_name).
                 is_word_char c \<or> is_space_char c \<or> c = CHR ''-'')
           \<and> length (pdf_filename business_name pdf_url dt) \<le> FILENAME_MAX_LENGTH + 29"
proof -
  from strftime_form [OF assms] obtain ymd hms where
    t: "strftime dt = ymd @ ''_'' @ hms" "length ymd = 8" "length hms = 6"
      "list_all is_ascii_digit ymd" "list_all is_ascii_digit hms"
    by blast
  note h = url_hash_form [of pdf_url]
  note n = safe_name_form [of business_name]
  have "pdf_filename business_name pdf_url dt =
          safe_name business_name @ ''_'' @ url_hash pdf_url @ ''_'' @ ymd @ ''_'' @ hms @ ''.pdf''"
    by (simp add: pdf_filename_def t(1))
  moreover from this have
    "length (pdf_filename business_name pdf_url dt) \<le> FILENAME_MAX_LENGTH + 29"
    using t(2,3) h n by simp
  ultimately show ?thesis
    using t(2-5) h n by blast
qed
theorem pdf_filename_form_witness:
  "valid_datetime noon
   \<and> pdf_filename ''Acme LLC'' ''https://www.sosnc.gov/d/a.pdf'' noon =
       ''Acme LLC_b4284ef3_20240517_120000.pdf''
   \<and> length (pdf_filename ''Acme LLC'' ''https://www.sosnc.gov/d/a.pdf'' noon)
       \<le> FILENAME_MAX_LENGTH + 29"
proof -
  have v: "valid_datetime noon"
    by (simp add: valid_datetime_def noon_def)
  from pdf_filename_form [OF v, of "''Acme LLC''" "''https://www.sosnc.gov/d/a.pdf''"]
  have "length (pdf_filename ''Acme LLC'' ''https://www.sosnc.gov/d/a.pdf'' noon)
          \<le> FILENAME_MAX_LENGTH + 29"
    by blast
  with v show ?thesis
    by (simp add: pdf_filename_def url_hash_a strftime_noon safe_name_acme)
qed

lemma zfill_digits: "list_all is_ascii_digit (zfill width (str_nat n))"
proof -
  have "is_ascii_digit CHR ''0''"
    by (simp add: is_ascii_digit_def)
  with str_nat_digits [of n] show ?thesis
    by (auto simp: zfill_def list_all_iff)
qed

lemma strftime_no_slash: "CHR ''/'' \<notin> set (strftime dt)"
proof -
  have "\<not> is_ascii_digit CHR ''/''"
    by (simp add: is_ascii_digit_def)
  then have "CHR ''/'' \<notin> set (zfill width (str_nat n))" for width n
    using zfill_digits [of width n] by (auto simp: list_all_iff)
  then show ?thesis
    by (simp add: strftime_def)
qed

lemma pdf_filename_no_slash: "CHR ''/'' \<notin> set (pdf_filename business_name pdf_url dt)"
proof -
  have w: "\<not> (is_word_char CHR ''/'' \<or> is_space_char CHR ''/'' \<or> CHR ''/'' = CHR ''-'')"
    by (simp add: is_word_char_def is_space_char_def)
  have "CHR ''/'' \<notin> set (safe_name business_name)"
    using safe_name_form [of business_name] w by blast
  moreover have "\<not> is_lower_hex CHR ''/''"
    by (simp add: is_lower_hex_def)
  then have "CHR ''/'' \<notin> set (url_hash pdf_url)"
    using url_hash_form [of pdf_url] by (auto simp: list_all_iff)
  ultimately show ?thesis
    using strftime_no_slash [of dt] by (simp add: pdf_filename_def)
qed

section \<open>Downloader: two URLs and one name\<close>

text \<open>
  C7, as stated, fails: two different URLs whose MD5 digests start with the same eight
  hex digits are saved, for one business within one second, under the same path.
\<close>

theorem two_urls_one_path:
  "''https://www.sosnc.gov/d/138937.pdf'' \<noteq> ''https://www.sosnc.gov/d/158467.pdf''
   \<and> fst (download_pdf_file (network (\<lambda>i. True) site_page site_parse) default_configuration
            ''https://www.sosnc.gov/d/138937.pdf'' ''Acme LLC'' start) =
       Inr ''fetched_documents/Acme LLC_1c69276c_20240517_120000.pdf''
   \<and> fst (download_pdf_file (network (\<lambda>i. True) site_page site_parse) default_configuration
            ''https://www.sosnc.gov/d/158467.pdf'' ''Acme LLC'' start) =
       Inr ''fetched_documents/Acme LLC_1c69276c_20240517_120000.pdf''"
  by (simp add: download_pdf_file_def site_request pdf_filename_def url_hash_138937
      url_hash_158467 strftime_noon safe_name_acme storage_file_default network_fields Let_def)

text \<open>
  C7, amended. For one business and one second, two URLs get the same file name, and
  so the same path, exactly when the first eight hex digits of their MD5 digests are the
  same; URLs whose tags differ never share a name.
\<close>

theorem pdf_filename_eq_iff:
  "(pdf_filename business_name url1 dt = pdf_filename business_name url2 dt)
     = (url_hash url1 = url_hash url2)
   \<and> (storage_file cfg (pdf_filename business_name url1 dt)
        = storage_file cfg (pdf_filename business_name url2 dt))
     = (url_hash url1 = url_hash url2)"
proof -
  have n: "CHR ''/'' \<notin> set (pdf_filename business_name u dt)
           \<and> pdf_filename business_name u dt \<noteq> []
           \<and> pdf_filename business_name u dt \<noteq> ''.''" for u
    using pdf_filename_no_slash [of business_name u dt] by (simp add: pdf_filename_def)
  have "(pdf_filename business_name url1 dt = pdf_filename business_name url2 dt)
     = (url_hash url1 = url_hash url2)"
    by (simp add: pdf_filename_def)
  moreover have "(storage_file cfg (pdf_filename business_name url1 dt)
        = storage_file cfg (pdf_filename business_name url2 dt))
     = (pdf_filename business_name url1 dt = pdf_filename business_name url2 dt)"
    using n [of url1] n [of url2] by (simp add: storage_file_name)
  ultimately show ?thesis by simp
qed

theorem pdf_filename_eq_iff_witness:
  "pdf_filename ''Acme LLC'' ''https://www.sosnc.gov/d/a.pdf'' noon
     \<noteq> pdf_filename ''Acme LLC'' ''https://www.sosnc.gov/d/B.PDF'' noon
   \<and> pdf_filename ''Acme LLC'' ''https://www.sosnc.gov/d/138937.pdf'' noon
     = pdf_filename ''Acme LLC'' ''https://www.sosnc.gov/d/158467.pdf'' noon"
  using pdf_filename_eq_iff [of "''Acme LLC''" "''https://www.sosnc.gov/d/a.pdf''" noon
      "''https://www.sosnc.gov/d/B.PDF''" default_configuration]
    pdf_filename_eq_iff [of "''Acme LLC''" "''https://www.sosnc.gov/d/138937.pdf''" noon
      "''https://www.sosnc.gov/d/158467.pdf''" default_configuration]
  by (simp add: url_hash_a url_hash_B url_hash_138937 url_hash_158467)

section \<open>ResultExtractor: rows and records\<close>




lemma extract_rows_skip:
  "\<not> yields_record row \<Longrightarrow>
   extract_rows E cfg (row # rows) business_list = extract_rows E cfg rows business_list"
  by (auto simp: yields_record_def name_link_def Let_def)

lemma extract_rows_take_fail:
  "yields_record row \<Longrightarrow> urljoin E (target_base_url cfg) (row_href row) = Inl e \<Longrightarrow>
   extract_rows E cfg (row # rows) business_list = Inl e"
  by (auto simp: yields_record_def name_link_def row_href_def Let_def)

lemma extract_rows_take_ok:
  "yields_record row \<Longrightarrow> urljoin E (target_base_url cfg) (row_href row) = Inr link \<Longrightarrow>
   \<exists>b. \<forall>rows business_list. extract_rows E cfg (row # rows) business_list =
        extract_rows E cfg rows (business_list @ [b])"
  by (auto simp: yields_record_def name_link_def row_href_def Let_def)

lemma extract_rows_filter:
  "extract_rows E cfg rows business_list =
   extract_rows E cfg (filter yields_record rows) business_list"
proof (induction rows arbitrary: business_list)
  case Nil
  show ?case by simp
next
  case (Cons row rows)
  show ?case
  proof (cases "yields_record row")
    case False
    then show ?thesis using Cons.IH
      by (simp add: extract_rows_skip del: extract_rows.simps)
  next
    case True
    show ?thesis
    proof (cases "urljoin E (target_base_url cfg) (row_href row)")
      case (Inl e)
      from True show ?thesis
        by (simp add: extract_rows_take_fail [OF True Inl] del: extract_rows.simps)
    next
      case (Inr link)
      from extract_rows_take_ok [OF True Inr] obtain b where
        "\<And>rows business_list. extract_rows E cfg (row # rows) business_list =
            extract_rows E cfg rows (business_list @ [b])"
        by blast
      with True Cons.IH show ?thesis
        by (simp del: extract_rows.simps)
    qed
  qed
qed

lemma extract_rows_fails:
  "extract_rows E cfg rows business_list = Inl e \<Longrightarrow>
   \<exists>row\<in>set rows. yields_record row
      \<and> urljoin E (target_base_url cfg) (row_href row) = Inl e"
proof (induction rows arbitrary: business_list)
  case Nil
  then show ?case by simp
next
  case (Cons row rows)
  show ?case
  proof (cases "yields_record row")
    case False
    with Cons.prems have "extract_rows E cfg rows business_list = Inl e"
      by (simp add: extract_rows_skip del: extract_rows.simps)
    from Cons.IH [OF this] show ?thesis by auto
  next
    case True
    show ?thesis
    proof (cases "urljoin E (target_base_url cfg) (row_href row)")
      case (Inl e')
      from extract_rows_take_fail [OF True Inl] Cons.prems have "e' = e"
        by (simp del: extract_rows.simps)
      with Inl True show ?thesis by simp
    next
      case (Inr link)
      from extract_rows_take_ok [OF True Inr] obtain b where
        "\<And>rows business_list. extract_rows E cfg (row # rows) business_list =
            extract_rows E cfg rows (business_list @ [b])"
        by blast
      with Cons.prems have "extract_rows E cfg rows (business_list @ [b]) = Inl e"
        by (simp del: extract_rows.simps)
      from Cons.IH [OF this] show ?thesis by auto
    qed
  qed
qed

lemma extract_rows_ok:
  "\<forall>row\<in>set rows. yields_record row
      \<longrightarrow> \<not> isl (urljoin E (target_base_url cfg) (row_href row)) \<Longrightarrow>
   \<exists>records. extract_rows E cfg rows business_list = Inr (business_list @ records)
      \<and> length records = length (filter yields_record rows)"
proof (induction rows arbitrary: business_list)
  case Nil
  show ?case by simp
next
  case (Cons row rows)
  from Cons.prems have rest: "\<forall>row\<in>set rows. yields_record row
      \<longrightarrow> \<not> isl (urljoin E (target_base_url cfg) (row_href row))"
    by simp
  show ?case
  proof (cases "yields_record row")
    case False
    with Cons.IH [OF rest, of business_list] show ?thesis
      by (simp add: extract_rows_skip del: extract_rows.simps)
  next
    case True
    with Cons.prems obtain link where
      u: "urljoin E (target_base_url cfg) (row_href row) = Inr link"
      by (cases "urljoin E (target_base_url cfg) (row_href row)") auto
    from extract_rows_take_ok [OF True u] obtain b where
      s: "\<And>rows business_list. extract_rows E cfg (row # rows) business_list =
            extract_rows E cfg rows (business_list @ [b])"
      by blast
    from Cons.IH [OF rest, of "business_list @ [b]"] obtain records where
      "extract_rows E cfg rows (business_list @ [b]) = Inr ((business_list @ [b]) @ records)"
      "length records = length (filter yields_record rows)"
      by blast
    with s True have
      "extract_rows E cfg (row # rows) business_list = Inr (business_list @ (b # records))
       \<and> length (b # records) = length (filter yields_record (row # rows))"
      by (simp del: extract_rows.simps)
    then show ?thesis by blast
  qed
qed

lemma find_result_table_None:
  assumes "\<forall>n\<in>set (descendants parsed_html). is_tag ''table'' n
             \<longrightarrow> \<not> attr_matches ''class'' ''result'' n \<and> \<not> attr_matches ''id'' ''search'' n"
  shows "find_result_table parsed_html = None"
proof -
  from assms have "find_by_attr ''table'' ''class'' ''result'' parsed_html = None"
    "find_by_attr ''table'' ''id'' ''search'' parsed_html = None"
    by (auto simp: find_by_attr_def find_None_iff)
  then show ?thesis by (simp add: find_result_table_def)
qed

text \<open>
  C4, as stated, fails: the extractor does fail. On a results table whose row has three
  cells and a link with the href \<open>//[\<close>, \<open>urljoin\<close> raises ValueError and the extractor
  does not catch it.
\<close>

theorem extractor_fails_on_bracket:
  "extract_business_records (network (\<lambda>i. True) site_page (\<lambda>s. bracket_page))
     default_configuration ''search'' = Inl (Exn ValueError ''Invalid IPv6 URL'')"
  by code_simp

text \<open>
  C4, amended. (1) A page with no table whose class contains \<open>result\<close> and no table whose
  id contains \<open>search\<close>, compared case-insensitively, gives the empty sequence. (2) For a
  located table the first row is skipped, and the rows with fewer than three cells and
  the rows without a link in the first cell contribute nothing: the result, a failure
  included, is that of the remaining rows alone. (3) The extractor fails only with the
  ValueError that \<open>urljoin\<close> raises on the href of a row that yields a record; (4) when
  every such href resolves it returns one record for each such row.
\<close>

theorem extractor_filters_rows:
  "((\<forall>n\<in>set (descendants (parse_html E html_content)). is_tag ''table'' n
        \<longrightarrow> \<not> attr_matches ''class'' ''result'' n \<and> \<not> attr_matches ''id'' ''search'' n)
      \<longrightarrow> extract_business_records E cfg html_content = Inr [])
   \<and> (find_result_table (parse_html E html_content) = Some result_table
      \<longrightarrow> extract_business_records E cfg html_content =
            extract_rows E cfg (filter yields_record (drop 1 (find_all ''tr'' result_table))) []
          \<and> (\<forall>e. extract_business_records E cfg html_content = Inl e
                \<longrightarrow> (\<exists>row\<in>set (drop 1 (find_all ''tr'' result_table)). yields_record row
                       \<and> urljoin E (target_base_url cfg) (row_href row) = Inl e))
          \<and> ((\<forall>row\<in>set (drop 1 (find_all ''tr'' result_table)). yields_record row
                  \<longrightarrow> \<not> isl (urljoin E (target_base_url cfg) (row_href row)))
                \<longrightarrow> (\<exists>records. extract_business_records E cfg html_content = Inr records
                       \<and> length records =
                          length (filter yields_record (drop 1 (find_all ''tr'' result_table))))))"
proof -
  have 1: "extract_business_records E cfg html_content = Inr []"
    if "\<forall>n\<in>set (descendants (parse_html E html_content)). is_tag ''table'' n
        \<longrightarrow> \<not> attr_matches ''class'' ''result'' n \<and> \<not> attr_matches ''id'' ''search'' n"
    using find_result_table_None [OF that] by (simp add: extract_business_records_def)
  have 2: "extract_business_records E cfg html_content =
            extract_rows E cfg (filter yields_record (drop 1 (find_all ''tr'' result_table))) []
          \<and> (\<forall>e. extract_business_records E cfg html_content = Inl e
                \<longrightarrow> (\<exists>row\<in>set (drop 1 (find_all ''tr'' result_table)). yields_record row
                       \<and> urljoin E (target_base_url cfg) (row_href row) = Inl e))
          \<and> ((\<forall>row\<in>set (drop 1 (find_all ''tr'' result_table)). yields_record row
                  \<longrightarrow> \<not> isl (urljoin E (target_base_url cfg) (row_href row)))
                \<longrightarrow> (\<exists>records. extract_business_records E cfg html_content = Inr records
                       \<and> length records =
                          length (filter yields_record (drop 1 (find_all ''tr'' result_table)))))"
    if t: "find_result_table (parse_html E html_content) = Some result_table"
  proof -
    let ?rows = "drop 1 (find_all ''tr'' result_table)"
    have e: "extract_business_records E cfg html_content = extract_rows E cfg ?rows []"
      using t by (simp add: extract_business_records_def)
    have a: "extract_business_records E cfg html_content =
            extract_rows E cfg (filter yields_record ?rows) []"
      unfolding e by (rule extract_rows_filter)
    have b: "\<forall>e. extract_business_records E cfg html_content = Inl e
                \<longrightarrow> (\<exists>row\<in>set ?rows. yields_record row
                       \<and> urljoin E (target_base_url cfg) (row_href row) = Inl e)"
      unfolding e using extract_rows_fails by blast
    have c: "\<exists>records. extract_business_records E cfg html_content = Inr records
                       \<and> length records = length (filter yields_record ?rows)"
      if "\<forall>row\<in>set ?rows. yields_record row
                  \<longrightarrow> \<not> isl (urljoin E (target_base_url cfg) (row_href row))"
      unfolding e using extract_rows_ok [OF that, of "[]"] by simp
    from a b c show ?thesis by blast
  qed
  from 1 2 show ?thesis by blast
qed
theorem extractor_filters_rows_witness:
  "extract_business_records (network (\<lambda>i. True) site_page (\<lambda>s. empty_document))
     default_configuration ''search'' = Inr []
   \<and> extract_business_records (network (\<lambda>i. True) site_page (\<lambda>s. mixed_page))
     default_configuration ''search'' =
     Inr [\<lparr>entity_name = ''Bare Co'', sos_identifier = ''3'', status_text = ''Dissolved'',
           date_registered = [], detail_link = ''https://www.sosnc.gov'',
           pdf_documents = []\<rparr>]"
proof -
  let ?E1 = "network (\<lambda>i. True) site_page (\<lambda>s. empty_document)"
  let ?E2 = "network (\<lambda>i. True) site_page (\<lambda>s. mixed_page)"
  let ?T = "Tag ''table'' [(''id'', ''SearchGrid'')]
          [Tag ''tr'' [] [Tag ''td'' [] [Tag ''a'' [(''href'', ''/h'')] [NavigableString ''Name'']],
                          Tag ''td'' [] [], Tag ''td'' [] []],
           Tag ''tr'' [] [Tag ''td'' [] [Tag ''a'' [(''href'', ''/two'')] [NavigableString ''Two'']],
                          Tag ''td'' [] [NavigableString ''1'']],
           Tag ''tr'' [] [Tag ''td'' [] [NavigableString ''No link''],
                          Tag ''td'' [] [NavigableString ''2''],
                          Tag ''td'' [] [NavigableString ''Active'']],
           Tag ''tr'' [] [Tag ''td'' [] [Tag ''a'' [(''name'', ''x'')] [NavigableString '' Bare Co '']],
                          Tag ''td'' [] [NavigableString ''3''],
                          Tag ''td'' [] [NavigableString ''Dissolved'']]]"
  have d: "descendants (parse_html ?E1 ''search'') = []"
    by (simp add: network_def empty_document_def)
  from extractor_filters_rows [of ?E1 "''search''" default_configuration, THEN conjunct1]
  have a: "extract_business_records ?E1 default_configuration ''search'' = Inr []"
    by (simp add: d)
  have t: "find_result_table (parse_html ?E2 ''search'') = Some ?T"
    by code_simp
  from extractor_filters_rows [of ?E2 "''search''" default_configuration ?T, THEN conjunct2,
      rule_format, OF t, THEN conjunct1]
  have b: "extract_business_records ?E2 default_configuration ''search'' =
      extract_rows ?E2 default_configuration
        (filter yields_record (drop 1 (find_all ''tr'' ?T))) []" .
  have c: "extract_rows ?E2 default_configuration
        (filter yields_record (drop 1 (find_all ''tr'' ?T))) [] =
     Inr [\<lparr>entity_name = ''Bare Co'', sos_identifier = ''3'', status_text = ''Dissolved'',
           date_registered = [], detail_link = ''https://www.sosnc.gov'',
           pdf_documents = []\<rparr>]"
    by code_simp
  from a b c show ?thesis by simp
qed

section \<open>DocumentLinkExtractor: which links, in which order\<close>

lemma remdups_drop_known:
  "u \<in> set ys \<Longrightarrow> remdups (xs @ u # ys) = remdups (xs @ ys)"
  by (induction xs) auto

lemma first_seen_known:
  "u \<in> set acc \<Longrightarrow> rev (remdups (rev (acc @ u # us))) = rev (remdups (rev (acc @ us)))"
  by (simp add: remdups_drop_known)

lemma collect_pdf_urls_ok:
  "distinct pdf_urls \<Longrightarrow>
   \<forall>h\<in>set (filter href_is_pdf (map href_of links)).
      \<not> isl (urljoin E (target_base_url cfg) h) \<Longrightarrow>
   collect_pdf_urls E cfg links pdf_urls =
     Inr (rev (remdups (rev (pdf_urls @
            map (\<lambda>h. projr (urljoin E (target_base_url cfg) h))
              (filter href_is_pdf (map href_of links))))))"
proof (induction links arbitrary: pdf_urls)
  case Nil
  then show ?case by (simp add: distinct_remdups_id)
next
  case (Cons link links)
  from Cons.prems(2) have rest: "\<forall>h\<in>set (filter href_is_pdf (map href_of links)).
      \<not> isl (urljoin E (target_base_url cfg) h)"
    by simp
  show ?case
  proof (cases "href_is_pdf (href_of link)")
    case False
    with Cons.IH [OF Cons.prems(1) rest] show ?thesis
      by (simp add: href_is_pdf_def)
  next
    case True
    with Cons.prems(2) obtain full_url where
      u: "urljoin E (target_base_url cfg) (href_of link) = Inr full_url"
      by (cases "urljoin E (target_base_url cfg) (href_of link)") auto
    show ?thesis
    proof (cases "full_url \<in> set pdf_urls")
      case known: True
      with True u Cons.IH [OF Cons.prems(1) rest] show ?thesis
        using first_seen_known [OF known]
        by (simp add: href_is_pdf_def)
    next
      case new: False
      with Cons.prems(1) have "distinct (pdf_urls @ [full_url])" by simp
      from Cons.IH [OF this rest] True u new show ?thesis
        by (simp add: href_is_pdf_def)
    qed
  qed
qed

lemma collect_pdf_urls_fails:
  "collect_pdf_urls E cfg links pdf_urls = Inl e \<Longrightarrow>
   \<exists>h\<in>set (filter href_is_pdf (map href_of links)).
      urljoin E (target_base_url cfg) h = Inl e"
proof (induction links arbitrary: pdf_urls)
  case Nil
  then show ?case by simp
next
  case (Cons link links)
  show ?case
  proof (cases "href_is_pdf (href_of link)")
    case False
    with Cons.prems have "collect_pdf_urls E cfg links pdf_urls = Inl e"
      by (simp add: href_is_pdf_def)
    from Cons.IH [OF this] show ?thesis by auto
  next
    case True
    show ?thesis
    proof (cases "urljoin E (target_base_url cfg) (href_of link)")
      case (Inl e')
      with True Cons.prems have "e' = e"
        by (simp add: href_is_pdf_def)
      with Inl True show ?thesis by simp
    next
      case (Inr full_url)
      with True Cons.prems obtain acc where "collect_pdf_urls E cfg links acc = Inl e"
        by (cases "full_url \<in> set pdf_urls") (simp_all add: href_is_pdf_def)
      from Cons.IH [OF this] show ?thesis by auto
    qed
  qed
qed

text \<open>
  C5, as stated, fails: a link whose path ends in \<open>.pdf\<close> but which has a query is not
  returned, and a link whose query, not its path, ends in \<open>.pdf\<close> is returned.
\<close>

theorem path_is_not_what_is_tested:
  "spec_path_ends_in_pdf (network (\<lambda>i. True) site_page (\<lambda>s. query_page)) ''/d/a.pdf?v=2''
   \<and> \<not> spec_path_ends_in_pdf (network (\<lambda>i. True) site_page (\<lambda>s. query_page)) ''/view?f=.pdf''
   \<and> locate_pdf_links (network (\<lambda>i. True) site_page (\<lambda>s. query_page))
        default_configuration ''detail'' = Inr [''https://www.sosnc.gov/view?f=.pdf'']"
  by code_simp

text \<open>
  C5, amended. The extractor selects the anchors that have an href whose whole text,
  query and fragment included, ends in \<open>.pdf\<close> compared case-insensitively. When
  \<open>urljoin\<close> resolves each selected href against the base URL, the result is the
  resolved URLs in the order of their first occurrence, each once. The extractor fails
  only with the ValueError that \<open>urljoin\<close> raises on a selected href.
\<close>

theorem locate_pdf_links_first_seen:
  "((\<forall>h\<in>set (filter href_is_pdf (map href_of (all_links (parse_html E html_content)))).
        \<not> isl (urljoin E (target_base_url cfg) h))
      \<longrightarrow> locate_pdf_links E cfg html_content =
            Inr (rev (remdups (rev
                   (map (\<lambda>h. projr (urljoin E (target_base_url cfg) h))
                      (filter href_is_pdf
                         (map href_of (all_links (parse_html E html_content)))))))))
   \<and> (locate_pdf_links E cfg html_content = Inl e
      \<longrightarrow> (\<exists>h\<in>set (filter href_is_pdf (map href_of (all_links (parse_html E html_content)))).
             urljoin E (target_base_url cfg) h = Inl e))"
proof -
  have 1: "locate_pdf_links E cfg html_content =
            Inr (rev (remdups (rev
                   (map (\<lambda>h. projr (urljoin E (target_base_url cfg) h))
                      (filter href_is_pdf
                         (map href_of (all_links (parse_html E html_content))))))))"
    if "\<forall>h\<in>set (filter href_is_pdf (map href_of (all_links (parse_html E html_content)))).
        \<not> isl (urljoin E (target_base_url cfg) h)"
    using collect_pdf_urls_ok [OF _ that, of "[]"] by (simp add: locate_pdf_links_def)
  have 2: "\<exists>h\<in>set (filter href_is_pdf (map href_of (all_links (parse_html E html_content)))).
             urljoin E (target_base_url cfg) h = Inl e"
    if "locate_pdf_links E cfg html_content = Inl e"
    using that collect_pdf_urls_fails unfolding locate_pdf_links_def by blast
  from 1 2 show ?thesis by blast
qed

theorem locate_pdf_links_first_seen_witness:
  "locate_pdf_links (network (\<lambda>i. True) site_page site_parse) default_configuration ''detail''
     = Inr [''https://www.sosnc.gov/d/a.pdf'', ''https://www.sosnc.gov/d/B.PDF'']"
proof -
  let ?E = "network (\<lambda>i. True) site_page site_parse"
  have sel: "filter href_is_pdf (map href_of (all_links (parse_html ?E ''detail''))) =
      [''/d/a.pdf'', ''/d/B.PDF'', ''/d/a.pdf'']"
    by code_simp
  have b: "target_base_url default_configuration = ''https://www.sosnc.gov''"
    by (simp add: default_configuration_def)
  from locate_pdf_links_first_seen [of ?E "''detail''" default_configuration, THEN conjunct1]
  show ?thesis
    by (simp add: sel b urljoin_a urljoin_B)
qed

end
